theory Spec2Isabelle
  imports Main
begin

section \<open>JavaScript values used by the component\<close>

text \<open>
  The game is one React component, \<^verbatim>\<open>src/components/TypingGame.tsx\<close>. Its strings are
  JavaScript strings: sequences of UTF-16 code units. A string is modelled as the list of
  its code units, so \<open>length\<close> is \<^verbatim>\<open>.length\<close> and \<open>s ! i\<close> (for \<open>i\<close> in range) is the
  one-unit string \<^verbatim>\<open>s[i]\<close>. The function \<open>str\<close> writes an ASCII literal.
\<close>

type_synonym jsstring = "nat list"

definition str :: "string \<Rightarrow> jsstring" where
  "str cs = map of_char cs"

text \<open>
  \<^verbatim>\<open>s[i]\<close> is \<^verbatim>\<open>undefined\<close> when \<open>i\<close> is not an index of \<open>s\<close>; \<open>None\<close> stands for
  \<^verbatim>\<open>undefined\<close>.
\<close>

definition charAt :: "jsstring \<Rightarrow> nat \<Rightarrow> nat option" where
  "charAt s i = (if i < length s then Some (s ! i) else None)"

text \<open>
  JavaScript numbers are IEEE doubles. The phrase index is a number that is an integer
  below the length of an array, or \<^verbatim>\<open>NaN\<close>, which \<^verbatim>\<open>%\<close> by zero produces; on
  such integers the arithmetic of doubles is that of the integers. \<^verbatim>\<open>%\<close> takes the
  sign of the dividend.
\<close>

datatype jsnum = Number int | NaN

fun jsadd :: "jsnum \<Rightarrow> jsnum \<Rightarrow> jsnum" where
  "jsadd (Number a) (Number b) = Number (a + b)"
| "jsadd _ _ = NaN"

fun jssub :: "jsnum \<Rightarrow> jsnum \<Rightarrow> jsnum" where
  "jssub (Number a) (Number b) = Number (a - b)"
| "jssub _ _ = NaN"

fun jsrem :: "jsnum \<Rightarrow> jsnum \<Rightarrow> jsnum" where
  "jsrem (Number a) (Number b) =
     (if b = 0 then NaN else Number (sgn a * (\<bar>a\<bar> mod \<bar>b\<bar>)))"
| "jsrem _ _ = NaN"

text \<open>
  A time read back from storage can be any double. The model follows it while it is a
  safe integer (\<^verbatim>\<open>Number.isSafeInteger\<close>: at most \<open>2^53 - 1\<close> in magnitude), where
  doubles are exact, and as \<^verbatim>\<open>NaN\<close>. \<open>Unfollowed\<close> stands for every other double and
  for what is computed from one: the model does not say which number it is.
\<close>

definition safeInteger :: "int \<Rightarrow> bool" where
  "safeInteger i \<longleftrightarrow> - 9007199254740991 \<le> i \<and> i \<le> 9007199254740991"

datatype jsdouble = Safe int | NotANumber | Unfollowed

definition toDouble :: "int \<Rightarrow> jsdouble" where
  "toDouble v = (if safeInteger v then Safe v else Unfollowed)"

text \<open>Decimal digits of a natural number, most significant first.\<close>

function digits :: "nat \<Rightarrow> jsstring" where
  "digits n = (if n < 10 then [48 + n] else digits (n div 10) @ [48 + n mod 10])"
  by pat_completeness auto
termination
  by (relation "measure (\<lambda>n. n)") auto

declare digits.simps [simp del]

text \<open>
  \<^verbatim>\<open>n.toString()\<close> and \<^verbatim>\<open>`${n}`\<close> for an integer \<open>n\<close> below \<open>10^21\<close> in magnitude,
  where JavaScript prints every digit; safe integers are.
\<close>

definition intToString :: "int \<Rightarrow> jsstring" where
  "intToString i = (if i < 0 then 45 # digits (nat (- i)) else digits (nat i))"

text \<open>
  White space as \<^verbatim>\<open>String.prototype.trim\<close> and \<^verbatim>\<open>parseInt\<close> skip it: the
  ECMAScript WhiteSpace and LineTerminator code units.
\<close>

definition isWhiteSpace :: "nat \<Rightarrow> bool" where
  "isWhiteSpace c \<longleftrightarrow>
     c \<in> {9, 10, 11, 12, 13, 32, 160, 5760, 8232, 8233, 8239, 8287, 12288, 65279}
     \<or> (8192 \<le> c \<and> c \<le> 8202)"

definition trim :: "jsstring \<Rightarrow> jsstring" where
  "trim s = rev (dropWhile isWhiteSpace (rev (dropWhile isWhiteSpace s)))"

definition isDigit :: "nat \<Rightarrow> bool" where
  "isDigit c \<longleftrightarrow> 48 \<le> c \<and> c \<le> 57"

definition digitsValue :: "jsstring \<Rightarrow> int" where
  "digitsValue ds = foldl (\<lambda>acc d. 10 * acc + int (d - 48)) 0 ds"

text \<open>
  \<^verbatim>\<open>parseInt(s, 10)\<close>: leading white space, an optional sign, then the longest run of
  decimal digits; \<^verbatim>\<open>NaN\<close> when that run is empty. A value that is not a safe integer
  is rounded by the platform and not followed.
\<close>

definition parseInt10 :: "jsstring \<Rightarrow> jsdouble" where
  "parseInt10 s =
     (let t = dropWhile isWhiteSpace s;
          neg = (t \<noteq> [] \<and> hd t = 45);
          u = (if t \<noteq> [] \<and> (hd t = 45 \<or> hd t = 43) then tl t else t);
          ds = takeWhile isDigit u
      in if ds = [] then NotANumber
         else toDouble ((if neg then - 1 else 1) * digitsValue ds))"

text \<open>
  \<^verbatim>\<open>s.substring(a, b)\<close>: both arguments are clamped to the length and swapped when
  \<open>a > b\<close>.
\<close>

definition substring :: "jsstring \<Rightarrow> nat \<Rightarrow> nat \<Rightarrow> jsstring" where
  "substring s a b =
     (let a' = min a (length s); b' = min b (length s);
          lo = min a' b'; hi = max a' b'
      in take (hi - lo) (drop lo s))"

text \<open>\<^verbatim>\<open>s.split("")\<close>: the array of the one-unit strings of \<open>s\<close>.\<close>

definition splitChars :: "jsstring \<Rightarrow> jsstring list" where
  "splitChars s = map (\<lambda>c. [c]) s"

text \<open>\<^verbatim>\<open>arr.indexOf(x)\<close>; \<open>None\<close> stands for \<open>-1\<close>.\<close>

fun indexOf :: "'a list \<Rightarrow> 'a \<Rightarrow> nat option" where
  "indexOf [] x = None"
| "indexOf (y # ys) x =
     (if y = x then Some 0 else map_option Suc (indexOf ys x))"

text \<open>
  \<^verbatim>\<open>String.prototype.toLowerCase\<close> is the platform's Unicode case mapping, a table of
  the JavaScript engine and not code of this repository. Every function below that
  calls it takes it as the parameter \<open>lower\<close>, and the theorems hold for every such
  function. \<open>asciiLower\<close> agrees with the platform on ASCII strings and is the instance
  the examples are evaluated with.
\<close>

definition asciiLower :: "jsstring \<Rightarrow> jsstring" where
  "asciiLower s = map (\<lambda>c. if 65 \<le> c \<and> c \<le> 90 then c + 32 else c) s"

section \<open>Phrases and the keyboard\<close>

record phraseSet =
  setName :: jsstring
  phrases :: "jsstring list"

text \<open>
  \<open>specialCharMap\<close>, as \<^verbatim>\<open>Object.entries\<close> lists it (insertion order): subscript
  digits, dashes, degree, comparison signs, plus-minus, multiplication, mu, and the
  trademark, registered and copyright signs, which map to the empty string.
\<close>

definition specialCharMap :: "(nat \<times> jsstring) list" where
  "specialCharMap =
     [(0x2082, str ''2''), (0x2083, str ''3''), (0x2084, str ''4''), (0x2081, str ''1''),
      (0x2013, str ''-''), (0x2014, str ''-''), (0xB0, str ''o''), (0x2265, str ''>''),
      (0x2264, str ''<''), (0xB1, str ''+''), (0xD7, str ''x''), (0x3BC, str ''u''),
      (0x2122, []), (0xAE, []), (0xA9, [])]"

text \<open>
  \<^verbatim>\<open>s.replace(new RegExp(display, 'g'), typing)\<close> for a one-unit pattern that is no
  regular-expression metacharacter: every occurrence is replaced.
\<close>

definition replaceAll :: "nat \<Rightarrow> jsstring \<Rightarrow> jsstring \<Rightarrow> jsstring" where
  "replaceAll pat rep s = concat (map (\<lambda>c. if c = pat then rep else [c]) s)"

record phraseData =
  display :: jsstring
  typing :: jsstring

definition setupPhrase :: "jsstring \<Rightarrow> phraseData" where
  "setupPhrase originalPhrase =
     \<lparr>display = originalPhrase,
      typing = fold (\<lambda>(d, t) typingVersion. replaceAll d t typingVersion)
                 specialCharMap originalPhrase\<rparr>"

definition keyboardLayout :: "jsstring list list" where
  "keyboardLayout =
     [map (\<lambda>c. [of_char c]) ''1234567890-='',
      map (\<lambda>c. [of_char c]) ''qwertyuiop[]'',
      map (\<lambda>c. [of_char c]) (''asdfghjkl;'' @ [CHR 0x27]),
      map (\<lambda>c. [of_char c]) ''zxcvbnm,./'',
      [str '' '']]"

text \<open>
  \<open>shiftSymbols\<close> in the order \<^verbatim>\<open>Object.entries\<close> enumerates it: the integer-like
  keys \<^verbatim>\<open>"0"\<close> to \<^verbatim>\<open>"9"\<close> in ascending numeric order first, then the other keys
  in insertion order.
\<close>

definition shiftSymbols :: "(jsstring \<times> jsstring) list" where
  "shiftSymbols =
     [(str ''0'', str '')''), (str ''1'', str ''!''), (str ''2'', str ''@''),
      (str ''3'', str ''#''), (str ''4'', str ''$''), (str ''5'', str ''%''),
      (str ''6'', str ''^''), (str ''7'', str ''&''), (str ''8'', str ''*''),
      (str ''9'', str ''(''), (str ''-'', str ''_''), (str ''='', str ''+''),
      (str '';'', str '':''), ([0x27], [0x22]), (str '','', str ''<''),
      (str ''.'', str ''>''), (str ''/'', str ''?''), (str ''['', str ''{''),
      (str '']'', str ''}'')]"

section \<open>Keyboard Locator\<close>

record position =
  rowIndex :: nat
  keyIndex :: nat

text \<open>
  The \<^verbatim>\<open>for\<close> loop over the rows of the layout, from row \<open>rowIndex\<close> on: the first
  row that holds the key decides.
\<close>

fun scanRows :: "jsstring list list \<Rightarrow> nat \<Rightarrow> jsstring \<Rightarrow> position option" where
  "scanRows [] r k = None"
| "scanRows (row # rows) r k =
     (case indexOf row k of
        Some i \<Rightarrow> Some \<lparr>rowIndex = r, keyIndex = i\<rparr>
      | None \<Rightarrow> scanRows rows (Suc r) k)"

text \<open>
  The loop over the entries of \<open>shiftSymbols\<close>: an entry whose shifted symbol is the
  character returns the position of its base key when the layout has it, and the loop
  goes on to the next entry otherwise.
\<close>

fun scanShift :: "(jsstring \<times> jsstring) list \<Rightarrow> jsstring \<Rightarrow> position option" where
  "scanShift [] c = None"
| "scanShift ((baseKey, shiftSymbol) # es) c =
     (if shiftSymbol = c
      then (case scanRows keyboardLayout 0 baseKey of
              Some p \<Rightarrow> Some p
            | None \<Rightarrow> scanShift es c)
      else scanShift es c)"

definition findKeyPosition :: "(jsstring \<Rightarrow> jsstring) \<Rightarrow> jsstring \<Rightarrow> position option" where
  "findKeyPosition lower c =
     (let lowerChar = lower c
      in case scanRows keyboardLayout 0 lowerChar of
           Some p \<Rightarrow> Some p
         | None \<Rightarrow> scanShift shiftSymbols c)"

text \<open>
  The locator as the specification words it: the first position of the lowercased
  character in row-major order; failing that, the first entry of the shift table whose
  shifted value is the character, and the layout position of that entry's base key;
  failing that, not found.
\<close>

definition rowMajor :: "jsstring list list \<Rightarrow> (jsstring \<times> position) list" where
  "rowMajor layout =
     concat (map (\<lambda>(r, row). map (\<lambda>(i, k). (k, \<lparr>rowIndex = r, keyIndex = i\<rparr>))
                                    (enumerate 0 row))
                 (enumerate 0 layout))"

definition layoutPosition :: "jsstring \<Rightarrow> position option" where
  "layoutPosition k = map_option snd (find (\<lambda>(k', p). k' = k) (rowMajor keyboardLayout))"

definition locateSpec :: "(jsstring \<Rightarrow> jsstring) \<Rightarrow> jsstring \<Rightarrow> position option" where
  "locateSpec lower c =
     (case layoutPosition (lower c) of
        Some p \<Rightarrow> Some p
      | None \<Rightarrow>
         (case find (\<lambda>(baseKey, shiftSymbol). shiftSymbol = c) shiftSymbols of
            Some (baseKey, shiftSymbol) \<Rightarrow> layoutPosition baseKey
          | None \<Rightarrow> None))"

section \<open>Word-Boundary Scanner\<close>

record wordInfo =
  currentWord :: jsstring
  remainingLetters :: "jsstring list"

text \<open>
  The backward loop: \<^verbatim>\<open>while (wordStart > 0 && typingPhrase[wordStart - 1] !== " ")
  wordStart--\<close>. A read outside the phrase gives \<^verbatim>\<open>undefined\<close>, which is not a
  space.
\<close>

fun scanWordStart :: "jsstring \<Rightarrow> nat \<Rightarrow> nat" where
  "scanWordStart p 0 = 0"
| "scanWordStart p (Suc k) =
     (if charAt p k \<noteq> Some 32 then scanWordStart p k else Suc k)"

text \<open>
  The forward loop: \<^verbatim>\<open>while (wordEnd < typingPhrase.length && typingPhrase[wordEnd]
  !== " ") wordEnd++\<close>.
\<close>

function scanWordEnd :: "jsstring \<Rightarrow> nat \<Rightarrow> nat" where
  "scanWordEnd p k =
     (if k < length p \<and> charAt p k \<noteq> Some 32 then scanWordEnd p (Suc k) else k)"
  by pat_completeness auto
termination
  by (relation "measure (\<lambda>(p, k). length p - k)") auto

declare scanWordEnd.simps [simp del]

definition getCurrentWordInfo :: "jsstring \<Rightarrow> nat \<Rightarrow> wordInfo" where
  "getCurrentWordInfo typingPhrase currentIndex =
     (if currentIndex \<ge> length typingPhrase
      then \<lparr>currentWord = [], remainingLetters = []\<rparr>
      else
        let wordStart = scanWordStart typingPhrase currentIndex;
            wordEnd = scanWordEnd typingPhrase currentIndex
        in \<lparr>currentWord = substring typingPhrase wordStart wordEnd,
            remainingLetters =
              (if currentIndex < wordEnd
               then splitChars (substring typingPhrase (currentIndex + 1) wordEnd)
               else [])\<rparr>)"

section \<open>Session state\<close>

text \<open>
  The state of the component: its \<^verbatim>\<open>useState\<close> cells under their own names, and
  the parts of the browser its handlers write to: \<open>localStorage\<close>, the requests made to
  the speech synthesiser (\<open>spoken\<close>, oldest first) and the pending \<^verbatim>\<open>setTimeout\<close>
  callbacks (\<open>timeouts\<close>, oldest first, each with its delay in milliseconds).
  \<open>startTime\<close> and \<open>elapsedTime\<close> hold what \<^verbatim>\<open>Date.now()\<close> returned and whole seconds
  computed from it: integers far inside the safe range. The three preferences hold the
  JSON booleans the component itself stores; a stored item that is no JSON boolean is
  outside the model.
  \<open>availableSets\<close> is never written and is the parameter \<open>sets\<close> of the functions that
  read it: the data file \<^verbatim>\<open>phraseSets.json\<close> it is loaded from is any mapping from set
  keys to phrase sets. A key the mapping does not have looks up as \<^verbatim>\<open>undefined\<close>
  (\<open>None\<close>); the names that every JavaScript object inherits are not used as set keys.

  The callback scheduled on completion is \<^verbatim>\<open>goToNextPhrase\<close> of the render in which
  the key handler was created, so it reads the set key and phrase index of that render:
  the \<open>closure\<close>.
\<close>

record closure =
  capturedSetKey :: jsstring
  capturedPhraseIndex :: jsnum

datatype utterance = Letter jsstring | Sentence jsstring | UnfollowedSentence

datatype error = TypeError

record session =
  currentSetKey :: jsstring
  currentPhraseIndex :: jsnum
  displayPhrase :: jsstring
  typingPhrase :: jsstring
  userInput :: jsstring
  currentIndex :: nat
  customPhrase :: jsstring
  showKeyboard :: bool
  startTime :: "int option"
  elapsedTime :: int
  isTimerRunning :: bool
  previousTime :: "jsdouble option"
  showSpaceCharacter :: bool
  enableKeyTTS :: bool
  localStorage :: "jsstring \<rightharpoonup> jsstring"
  spoken :: "utterance list"
  timeouts :: "(nat \<times> closure) list"

definition currentClosure :: "session \<Rightarrow> closure" where
  "currentClosure s =
     \<lparr>capturedSetKey = currentSetKey s, capturedPhraseIndex = currentPhraseIndex s\<rparr>"

text \<open>\<^verbatim>\<open>!startTime\<close>: true of \<^verbatim>\<open>null\<close> and of the number 0.\<close>

definition startTimeFalsy :: "int option \<Rightarrow> bool" where
  "startTimeFalsy t \<longleftrightarrow> t = None \<or> t = Some 0"

definition speakLetter :: "jsstring \<Rightarrow> session \<Rightarrow> session" where
  "speakLetter letter s =
     s\<lparr>spoken := spoken s @ [Letter (if letter = str '' '' then str ''space'' else letter)]\<rparr>"

definition speakPhrase :: "jsstring \<Rightarrow> session \<Rightarrow> session" where
  "speakPhrase txt s = s\<lparr>spoken := spoken s @ [Sentence txt]\<rparr>"

definition storageKey :: "jsstring \<Rightarrow> jsstring" where
  "storageKey phrase = str ''typingTime-'' @ phrase"

text \<open>
  Reading a stored best time: \<^verbatim>\<open>if (savedTime) parseInt(savedTime, 10) else null\<close>;
  a missing item and the empty string are falsy.
\<close>

definition loadPrevious :: "(jsstring \<rightharpoonup> jsstring) \<Rightarrow> jsstring \<Rightarrow> jsdouble option" where
  "loadPrevious storage phrase =
     (case storage (storageKey phrase) of
        None \<Rightarrow> None
      | Some savedTime \<Rightarrow> if savedTime \<noteq> [] then Some (parseInt10 savedTime) else None)"

section \<open>Phrase Set Navigator\<close>

definition goToNextPhrase :: "(jsstring \<rightharpoonup> phraseSet) \<Rightarrow> closure \<Rightarrow> session \<Rightarrow> session" where
  "goToNextPhrase sets cl s =
     (case sets (capturedSetKey cl) of
        None \<Rightarrow> s
      | Some currentSet \<Rightarrow>
          s\<lparr>currentPhraseIndex :=
               jsrem (jsadd (capturedPhraseIndex cl) (Number 1))
                     (Number (int (length (phrases currentSet)))),
            userInput := [],
            currentIndex := 0,
            startTime := None,
            elapsedTime := 0,
            isTimerRunning := False,
            previousTime := None\<rparr>)"

definition goToPrevPhrase :: "(jsstring \<rightharpoonup> phraseSet) \<Rightarrow> closure \<Rightarrow> session \<Rightarrow> session" where
  "goToPrevPhrase sets cl s =
     (case sets (capturedSetKey cl) of
        None \<Rightarrow> s
      | Some currentSet \<Rightarrow>
          s\<lparr>currentPhraseIndex :=
               jsrem (jsadd (jssub (capturedPhraseIndex cl) (Number 1))
                            (Number (int (length (phrases currentSet)))))
                     (Number (int (length (phrases currentSet)))),
            userInput := [],
            currentIndex := 0,
            startTime := None,
            elapsedTime := 0,
            isTimerRunning := False,
            previousTime := None\<rparr>)"

definition handleSetChange :: "jsstring \<Rightarrow> session \<Rightarrow> session" where
  "handleSetChange newSetKey s =
     s\<lparr>currentSetKey := newSetKey,
       currentPhraseIndex := Number 0,
       userInput := [],
       currentIndex := 0,
       startTime := None,
       elapsedTime := 0,
       isTimerRunning := False\<rparr>"

definition handlePhraseSubmit :: "session \<Rightarrow> session" where
  "handlePhraseSubmit s =
     (if trim (customPhrase s) \<noteq> []
      then
        let phraseData = setupPhrase (trim (customPhrase s))
        in s\<lparr>displayPhrase := display phraseData,
             typingPhrase := typing phraseData,
             userInput := [],
             currentIndex := 0,
             customPhrase := [],
             startTime := None,
             elapsedTime := 0,
             isTimerRunning := False,
             previousTime := loadPrevious (localStorage s) (typing phraseData)\<rparr>
      else s)"

section \<open>Key Matcher and completion\<close>

text \<open>
  \<^verbatim>\<open>previousTime - finalTime\<close> when there is a previous time. The elapsed time is an
  integer number of seconds; the difference of two integers is the double of that
  value when it is a safe integer.
\<close>

definition timeDifference :: "jsdouble option \<Rightarrow> int \<Rightarrow> jsdouble option" where
  "timeDifference previous finalTime =
     (case previous of
        None \<Rightarrow> None
      | Some (Safe p) \<Rightarrow> Some (toDouble (p - finalTime))
      | Some NotANumber \<Rightarrow> Some NotANumber
      | Some Unfollowed \<Rightarrow> Some Unfollowed)"

text \<open>
  The three-way text on \<^verbatim>\<open>timeDifference > 0\<close>, \<^verbatim>\<open>timeDifference < 0\<close> and
  neither, with \<^verbatim>\<open>Math.abs(timeDifference)\<close>; both comparisons are false of
  \<^verbatim>\<open>NaN\<close>. \<open>None\<close> is the text for a difference that is not followed.
\<close>

definition improvementText :: "jsdouble \<Rightarrow> jsstring option" where
  "improvementText d =
     (case d of
        Safe v \<Rightarrow>
          Some (if v > 0
                then str ''You were '' @ intToString \<bar>v\<bar> @ str '' seconds faster!''
                else if v < 0
                then str ''You were '' @ intToString \<bar>v\<bar> @ str '' seconds slower.''
                else str ''You matched your previous time exactly!'')
      | NotANumber \<Rightarrow> Some (str ''You matched your previous time exactly!'')
      | Unfollowed \<Rightarrow> None)"

definition announcement :: "jsdouble option \<Rightarrow> int \<Rightarrow> jsstring option" where
  "announcement td finalTime =
     (case td of
        Some d \<Rightarrow>
          map_option
            (\<lambda>txt. str ''Great job! You finished in '' @ intToString finalTime
                      @ str '' seconds. '' @ txt)
            (improvementText d)
      | None \<Rightarrow>
          Some (str ''Great job! You finished in '' @ intToString finalTime
                  @ str '' seconds. That'' @ [0x27]
                  @ str ''s your first attempt with this phrase.''))"

text \<open>
  The branch of \<^verbatim>\<open>handleKeyPress\<close> taken when the new index equals the length of the
  typing phrase. \<open>s\<close> is the state the handler was created in (its \<^verbatim>\<open>elapsedTime\<close>,
  \<^verbatim>\<open>previousTime\<close> and \<^verbatim>\<open>typingPhrase\<close> are read from it), \<open>s'\<close> the state with the
  updates made so far.
\<close>

definition complete :: "session \<Rightarrow> session \<Rightarrow> session" where
  "complete s s' =
     (let finalTime = elapsedTime s;
          td = timeDifference (previousTime s) finalTime;
          s1 = s'\<lparr>isTimerRunning := False,
                  localStorage :=
                    (localStorage s')(storageKey (typingPhrase s) \<mapsto> intToString finalTime)\<rparr>;
          s2 = (case announcement td finalTime of
                  Some txt \<Rightarrow> speakPhrase txt s1
                | None \<Rightarrow> s1\<lparr>spoken := spoken s1 @ [UnfollowedSentence]\<rparr>)
      in s2\<lparr>timeouts := timeouts s2 @ [(3000, currentClosure s)]\<rparr>)"

text \<open>
  \<^verbatim>\<open>handleKeyPress\<close>. \<open>key\<close> is \<^verbatim>\<open>event.key\<close> (one character, or a name such as
  \<^verbatim>\<open>Shift\<close>), \<open>now\<close> what \<^verbatim>\<open>Date.now()\<close> returns. The handler reads
  \<^verbatim>\<open>typingPhrase[currentIndex]\<close> without a bounds check and calls
  \<^verbatim>\<open>toLowerCase\<close> on it: on \<^verbatim>\<open>undefined\<close> that call throws a TypeError. State
  updates queued before the throw stay queued, so the result is the state together with
  the error, if any.
\<close>

definition handleKeyPress ::
  "(jsstring \<Rightarrow> jsstring) \<Rightarrow> jsstring \<Rightarrow> int \<Rightarrow> session \<Rightarrow> error option \<times> session" where
  "handleKeyPress lower key now s =
     (let s1 = (if currentIndex s = 0 \<and> startTimeFalsy (startTime s)
                then s\<lparr>startTime := Some now, isTimerRunning := True\<rparr>
                else s)
      in case charAt (typingPhrase s) (currentIndex s) of
           None \<Rightarrow> (Some TypeError, s1)
         | Some expectedChar \<Rightarrow>
             if lower key = lower [expectedChar]
             then
               let s2 = (if enableKeyTTS s then speakLetter key s1 else s1);
                   newIndex = currentIndex s + 1;
                   s3 = s2\<lparr>userInput := userInput s @ [expectedChar],
                           currentIndex := newIndex\<rparr>
               in (None, if newIndex = length (typingPhrase s) then complete s s3 else s3)
             else (None, s1))"

section \<open>Timer and effects\<close>

text \<open>
  The callback of the 100 ms interval, which exists while \<^verbatim>\<open>isTimerRunning\<close>:
  \<^verbatim>\<open>if (startTime) setElapsedTime(Math.floor((Date.now() - startTime) / 1000))\<close>.
\<close>

definition timerTick :: "int \<Rightarrow> session \<Rightarrow> session" where
  "timerTick now s =
     (if isTimerRunning s
      then (case startTime s of
              None \<Rightarrow> s
            | Some t \<Rightarrow> if t \<noteq> 0 then s\<lparr>elapsedTime := (now - t) div 1000\<rparr> else s)
      else s)"

text \<open>
  \<^verbatim>\<open>phrases[i]\<close> for a number \<open>i\<close>: \<^verbatim>\<open>undefined\<close> unless \<open>i\<close> is an index.
\<close>

definition phraseAt :: "jsstring list \<Rightarrow> jsnum \<Rightarrow> jsstring option" where
  "phraseAt ps i =
     (case i of
        Number k \<Rightarrow> if 0 \<le> k \<and> k < int (length ps) then Some (ps ! nat k) else None
      | NaN \<Rightarrow> None)"

text \<open>
  The effect on \<^verbatim>\<open>[availableSets, currentSetKey, currentPhraseIndex]\<close>. With an index
  outside the set, \<^verbatim>\<open>setupPhrase(undefined)\<close> throws a TypeError inside the effect.
\<close>

definition phraseEffect :: "(jsstring \<rightharpoonup> phraseSet) \<Rightarrow> session \<Rightarrow> error + session" where
  "phraseEffect sets s =
     (if currentSetKey s \<noteq> [] then
        (case sets (currentSetKey s) of
           None \<Rightarrow> Inr s
         | Some currentSet \<Rightarrow>
             if length (phrases currentSet) > 0
             then (case phraseAt (phrases currentSet) (currentPhraseIndex s) of
                     None \<Rightarrow> Inl TypeError
                   | Some phrase \<Rightarrow>
                       let phraseData = setupPhrase phrase
                       in Inr (s\<lparr>displayPhrase := display phraseData,
                                 typingPhrase := typing phraseData\<rparr>))
             else Inr s)
      else Inr s)"

text \<open>The effect on \<^verbatim>\<open>[typingPhrase]\<close>: load the stored time of the phrase.\<close>

definition previousTimeEffect :: "session \<Rightarrow> session" where
  "previousTimeEffect s = s\<lparr>previousTime := loadPrevious (localStorage s) (typingPhrase s)\<rparr>"

definition boolJSON :: "bool \<Rightarrow> jsstring" where
  "boolJSON b = (if b then str ''true'' else str ''false'')"

text \<open>The three effects that persist a preference when it changes.\<close>

definition saveShowSpaceCharacter :: "session \<Rightarrow> session" where
  "saveShowSpaceCharacter s =
     s\<lparr>localStorage := (localStorage s)(str ''typing-game-showSpaceCharacter'' \<mapsto>
                           boolJSON (showSpaceCharacter s))\<rparr>"

definition saveEnableKeyTTS :: "session \<Rightarrow> session" where
  "saveEnableKeyTTS s =
     s\<lparr>localStorage := (localStorage s)(str ''typing-game-enableKeyTTS'' \<mapsto>
                           boolJSON (enableKeyTTS s))\<rparr>"

definition saveShowKeyboard :: "session \<Rightarrow> session" where
  "saveShowKeyboard s =
     s\<lparr>localStorage := (localStorage s)(str ''typing-game-showKeyboard'' \<mapsto>
                           boolJSON (showKeyboard s))\<rparr>"

definition settingsEffects :: "session \<Rightarrow> session \<Rightarrow> session" where
  "settingsEffects old s =
     (let s1 = (if showSpaceCharacter s \<noteq> showSpaceCharacter old
                then saveShowSpaceCharacter s else s);
          s2 = (if enableKeyTTS s1 \<noteq> enableKeyTTS old then saveEnableKeyTTS s1 else s1)
      in if showKeyboard s2 \<noteq> showKeyboard old then saveShowKeyboard s2 else s2)"

text \<open>
  What React runs after a handler has taken the state from \<open>old\<close> to \<open>new\<close>: each effect
  whose dependencies changed, the phrase effect first; the stored time is reloaded when
  the typing phrase is a different string afterwards. \<open>Inl\<close> is a component that an
  error thrown by an effect has taken down.
\<close>

definition runEffects :: "(jsstring \<rightharpoonup> phraseSet) \<Rightarrow> session \<Rightarrow> session \<Rightarrow> error + session" where
  "runEffects sets old new =
     (case (if currentSetKey new \<noteq> currentSetKey old
               \<or> currentPhraseIndex new \<noteq> currentPhraseIndex old
            then phraseEffect sets new else Inr new) of
        Inl e \<Rightarrow> Inl e
      | Inr s1 \<Rightarrow>
          Inr (settingsEffects old
                 (if typingPhrase s1 \<noteq> typingPhrase old then previousTimeEffect s1 else s1)))"

section \<open>The component as a state machine\<close>

text \<open>
  The events the component reacts to: a key pressed in the hidden input, the Next and
  Previous buttons, the set selector, typing into and submitting the custom-phrase
  form, a tick of the elapsed-time interval, the oldest pending timeout firing, and the
  three switches.
\<close>

datatype event =
    KeyDown jsstring int
  | ClickNext
  | ClickPrev
  | SelectSet jsstring
  | EditCustom jsstring
  | SubmitPhrase
  | Tick int
  | TimeoutFires
  | ToggleSpace
  | ToggleTTS
  | ToggleKeyboard

definition fireTimeout :: "(jsstring \<rightharpoonup> phraseSet) \<Rightarrow> session \<Rightarrow> session" where
  "fireTimeout sets s =
     (case timeouts s of
        [] \<Rightarrow> s
      | (delay, cl) # rest \<Rightarrow> goToNextPhrase sets cl (s\<lparr>timeouts := rest\<rparr>))"

fun handle :: "(jsstring \<rightharpoonup> phraseSet) \<Rightarrow> (jsstring \<Rightarrow> jsstring) \<Rightarrow> event \<Rightarrow> session \<Rightarrow> session" where
  "handle sets lower (KeyDown key now) s = snd (handleKeyPress lower key now s)"
| "handle sets lower ClickNext s = goToNextPhrase sets (currentClosure s) s"
| "handle sets lower ClickPrev s = goToPrevPhrase sets (currentClosure s) s"
| "handle sets lower (SelectSet newSetKey) s = handleSetChange newSetKey s"
| "handle sets lower (EditCustom txt) s = s\<lparr>customPhrase := txt\<rparr>"
| "handle sets lower SubmitPhrase s = handlePhraseSubmit s"
| "handle sets lower (Tick now) s = timerTick now s"
| "handle sets lower TimeoutFires s = fireTimeout sets s"
| "handle sets lower ToggleSpace s = s\<lparr>showSpaceCharacter := \<not> showSpaceCharacter s\<rparr>"
| "handle sets lower ToggleTTS s = s\<lparr>enableKeyTTS := \<not> enableKeyTTS s\<rparr>"
| "handle sets lower ToggleKeyboard s = s\<lparr>showKeyboard := \<not> showKeyboard s\<rparr>"

text \<open>
  One step: the handler, then the effects. An error thrown by the key handler is
  reported to the console and the component lives on with the updates queued before it.
\<close>

definition step ::
  "(jsstring \<rightharpoonup> phraseSet) \<Rightarrow> (jsstring \<Rightarrow> jsstring) \<Rightarrow> event \<Rightarrow> session \<Rightarrow> error + session" where
  "step sets lower e s = runEffects sets s (handle sets lower e s)"

text \<open>
  The state of the first render. The three preferences are what \<^verbatim>\<open>JSON.parse\<close> made
  of the stored items (or \<open>True\<close>), \<open>storage\<close> is the \<^verbatim>\<open>localStorage\<close> found.
\<close>

definition initialState :: "bool \<Rightarrow> bool \<Rightarrow> bool \<Rightarrow> (jsstring \<rightharpoonup> jsstring) \<Rightarrow> session" where
  "initialState kb sp tts storage =
     \<lparr>currentSetKey = str ''familySet'',
      currentPhraseIndex = Number 0,
      displayPhrase = [],
      typingPhrase = [],
      userInput = [],
      currentIndex = 0,
      customPhrase = [],
      showKeyboard = kb,
      startTime = None,
      elapsedTime = 0,
      isTimerRunning = False,
      previousTime = None,
      showSpaceCharacter = sp,
      enableKeyTTS = tts,
      localStorage = storage,
      spoken = [],
      timeouts = []\<rparr>"

text \<open>
  Mounting runs every effect once: the phrase effect, the load of the stored time (once
  more after the phrase effect has changed the typing phrase, so that the time loaded is
  that of the final typing phrase), and the three preference effects.
\<close>

definition mount ::
  "(jsstring \<rightharpoonup> phraseSet) \<Rightarrow> bool \<Rightarrow> bool \<Rightarrow> bool \<Rightarrow> (jsstring \<rightharpoonup> jsstring) \<Rightarrow> error + session" where
  "mount sets kb sp tts storage =
     (case phraseEffect sets (initialState kb sp tts storage) of
        Inl e \<Rightarrow> Inl e
      | Inr s1 \<Rightarrow>
          Inr (saveShowKeyboard (saveEnableKeyTTS (saveShowSpaceCharacter
                 (previousTimeEffect s1)))))"

text \<open>The states a session can be in: a fresh one, and what an event makes of one.\<close>

inductive reachable :: "(jsstring \<rightharpoonup> phraseSet) \<Rightarrow> (jsstring \<Rightarrow> jsstring) \<Rightarrow> session \<Rightarrow> bool"
  for sets :: "jsstring \<rightharpoonup> phraseSet" and lower :: "jsstring \<Rightarrow> jsstring" where
  fresh: "mount sets kb sp tts storage = Inr s \<Longrightarrow> reachable sets lower s"
| after: "reachable sets lower s \<Longrightarrow> step sets lower e s = Inr s' \<Longrightarrow> reachable sets lower s'"

text \<open>
  The set selector offers the keys of \<open>availableSets\<close> and nothing else, so the key that
  \<^verbatim>\<open>handleSetChange\<close> receives names an available set. \<open>userReachable\<close> are the states
  reached through the events the page offers.
\<close>

definition offered :: "(jsstring \<rightharpoonup> phraseSet) \<Rightarrow> event \<Rightarrow> bool" where
  "offered sets e = (case e of SelectSet newSetKey \<Rightarrow> sets newSetKey \<noteq> None | _ \<Rightarrow> True)"

inductive userReachable :: "(jsstring \<rightharpoonup> phraseSet) \<Rightarrow> (jsstring \<Rightarrow> jsstring) \<Rightarrow> session \<Rightarrow> bool"
  for sets :: "jsstring \<rightharpoonup> phraseSet" and lower :: "jsstring \<Rightarrow> jsstring" where
  started: "mount sets kb sp tts storage = Inr s \<Longrightarrow> userReachable sets lower s"
| performed: "userReachable sets lower s \<Longrightarrow> offered sets e \<Longrightarrow> step sets lower e s = Inr s'
              \<Longrightarrow> userReachable sets lower s'"

section \<open>Predicates of the specification\<close>

text \<open>
  The invariant of the session: the cursor is inside the typing phrase or at its end,
  and the input accumulated so far is the part of the typing phrase before the cursor.
\<close>

definition sessionInv :: "session \<Rightarrow> bool" where
  "sessionInv s \<longleftrightarrow>
     currentIndex s \<le> length (typingPhrase s)
     \<and> userInput s = take (currentIndex s) (typingPhrase s)"

text \<open>A reset session: cursor 0, empty input, timer cleared.\<close>

definition sessionReset :: "session \<Rightarrow> bool" where
  "sessionReset s \<longleftrightarrow>
     currentIndex s = 0 \<and> userInput s = [] \<and> startTime s = None
     \<and> elapsedTime s = 0 \<and> \<not> isTimerRunning s"

text \<open>
  The current word in the specification's words: its typed part runs back from the
  cursor to the preceding space or the start of the phrase, its part not yet typed runs
  from the cursor to the next space or the end of the phrase.
\<close>

definition notSpace :: "nat \<Rightarrow> bool" where
  "notSpace c \<longleftrightarrow> c \<noteq> 32"

definition wordBeforeCursor :: "jsstring \<Rightarrow> nat \<Rightarrow> jsstring" where
  "wordBeforeCursor p i = rev (takeWhile notSpace (rev (take i p)))"

definition wordFromCursor :: "jsstring \<Rightarrow> nat \<Rightarrow> jsstring" where
  "wordFromCursor p i = takeWhile notSpace (drop i p)"

section \<open>Example data\<close>

text \<open>
  A phrase-set mapping with one set of three phrases, and sessions on the phrase
  \<^verbatim>\<open>Hi!\<close>: untouched, one key before the end, and completed.
\<close>

definition exampleSets :: "jsstring \<rightharpoonup> phraseSet" where
  "exampleSets =
     [str ''familySet'' \<mapsto>
        \<lparr>setName = str ''Family'', phrases = [str ''Hi!'', str ''cat'', str ''a dog'']\<rparr>]"

definition exampleSession :: session where
  "exampleSession =
     (initialState True True True Map.empty)
       \<lparr>displayPhrase := str ''Hi!'', typingPhrase := str ''Hi!''\<rparr>"

definition exampleLast :: session where
  "exampleLast =
     exampleSession
       \<lparr>userInput := str ''Hi'', currentIndex := 2, startTime := Some 1000,
        elapsedTime := 7, isTimerRunning := True, previousTime := Some (Safe 9)\<rparr>"

definition exampleDone :: session where
  "exampleDone =
     exampleSession
       \<lparr>userInput := str ''Hi!'', currentIndex := 3, startTime := Some 1000, elapsedTime := 7\<rparr>"

text \<open>The fresh session that mounting on \<open>exampleSets\<close> with empty storage gives.\<close>

definition exampleFresh :: session where
  "exampleFresh =
     saveShowKeyboard (saveEnableKeyTTS (saveShowSpaceCharacter
       (previousTimeEffect exampleSession)))"

text \<open>Storage that holds a time of 4 seconds for the phrase \<^verbatim>\<open>cat\<close>.\<close>

definition exampleStorage :: "jsstring \<rightharpoonup> jsstring" where
  "exampleStorage = [str ''typingTime-cat'' \<mapsto> str ''4'']"

section \<open>Properties\<close>

subsection \<open>Field lemmas\<close>

lemma speakLetter_fields [simp]:
  "currentIndex (speakLetter l s) = currentIndex s"
  "userInput (speakLetter l s) = userInput s"
  "startTime (speakLetter l s) = startTime s"
  "elapsedTime (speakLetter l s) = elapsedTime s"
  "isTimerRunning (speakLetter l s) = isTimerRunning s"
  "typingPhrase (speakLetter l s) = typingPhrase s"
  "currentSetKey (speakLetter l s) = currentSetKey s"
  "currentPhraseIndex (speakLetter l s) = currentPhraseIndex s"
  "localStorage (speakLetter l s) = localStorage s"
  "timeouts (speakLetter l s) = timeouts s"
  by (simp_all add: speakLetter_def)

lemma complete_fields [simp]:
  "currentIndex (complete s s') = currentIndex s'"
  "userInput (complete s s') = userInput s'"
  "startTime (complete s s') = startTime s'"
  "elapsedTime (complete s s') = elapsedTime s'"
  "typingPhrase (complete s s') = typingPhrase s'"
  "currentSetKey (complete s s') = currentSetKey s'"
  "currentPhraseIndex (complete s s') = currentPhraseIndex s'"
  "isTimerRunning (complete s s') = False"
  by (simp_all add: complete_def speakPhrase_def Let_def split: option.splits)

subsection \<open>Key Matcher\<close>

text \<open>
  Claim C1. With the cursor inside the typing phrase, the key handler returns normally
  and accepts the key (moves the cursor on by exactly one) if and only if the lowercased
  key equals the lowercased expected character; on acceptance it appends the expected
  character of the phrase, in the phrase's own case, to \<open>userInput\<close>; on rejection cursor
  and \<open>userInput\<close> stay as they are.
\<close>

theorem key_matcher_accepts:
  assumes "currentIndex s < length (typingPhrase s)"
  shows "fst (handleKeyPress lower key now s) = None
       \<and> (currentIndex (snd (handleKeyPress lower key now s)) = currentIndex s + 1
            \<longleftrightarrow> lower key = lower [typingPhrase s ! currentIndex s])
       \<and> (lower key = lower [typingPhrase s ! currentIndex s] \<longrightarrow>
            userInput (snd (handleKeyPress lower key now s))
              = userInput s @ [typingPhrase s ! currentIndex s])
       \<and> (lower key \<noteq> lower [typingPhrase s ! currentIndex s] \<longrightarrow>
            userInput (snd (handleKeyPress lower key now s)) = userInput s
          \<and> currentIndex (snd (handleKeyPress lower key now s)) = currentIndex s)"
  using assms by (auto simp: handleKeyPress_def charAt_def Let_def)

text \<open>
  The example of the specification: on \<^verbatim>\<open>Hi!\<close> the key \<^verbatim>\<open>h\<close> is accepted and the
  stored input is \<^verbatim>\<open>H\<close>.
\<close>

theorem key_matcher_accepts_witness:
  "currentIndex exampleSession < length (typingPhrase exampleSession)
   \<and> asciiLower (str ''h'') = asciiLower [typingPhrase exampleSession ! currentIndex exampleSession]
   \<and> fst (handleKeyPress asciiLower (str ''h'') 1000 exampleSession) = None
   \<and> currentIndex (snd (handleKeyPress asciiLower (str ''h'') 1000 exampleSession)) = 1
   \<and> userInput (snd (handleKeyPress asciiLower (str ''h'') 1000 exampleSession)) = str ''H''"
proof -
  have h: "currentIndex exampleSession < length (typingPhrase exampleSession)"
    by (simp add: exampleSession_def initialState_def str_def)
  have m: "asciiLower (str ''h'')
             = asciiLower [typingPhrase exampleSession ! currentIndex exampleSession]"
    by (simp add: exampleSession_def initialState_def str_def asciiLower_def)
  from key_matcher_accepts [OF h, of asciiLower "str ''h''" 1000] h m
  show ?thesis
    by (simp add: exampleSession_def initialState_def str_def)
qed

text \<open>
  Claim C2, as the code has it. A key that does not match the expected character leaves
  the cursor, \<open>userInput\<close>, the elapsed time and every other field but two as they are.
  The two are \<open>startTime\<close> and \<open>isTimerRunning\<close>: the handler starts the timer on the first
  key press, before it compares the key. Any key pressed at cursor 0 while no start time
  is set, matching or not, sets \<open>startTime\<close> to the current time, and no other key press
  changes \<open>startTime\<close>. A rejected key there sets the timer running; in every other state
  a rejected key changes nothing at all. An accepted key leaves the timer stopped when
  it completes the phrase, running when it is that first key, and as it was otherwise.
\<close>

theorem key_press_timer_state:
  assumes "currentIndex s < length (typingPhrase s)"
  shows "(lower key \<noteq> lower [typingPhrase s ! currentIndex s] \<longrightarrow>
            handleKeyPress lower key now s =
              (None, if currentIndex s = 0 \<and> startTimeFalsy (startTime s)
                     then s\<lparr>startTime := Some now, isTimerRunning := True\<rparr>
                     else s))
       \<and> startTime (snd (handleKeyPress lower key now s)) =
            (if currentIndex s = 0 \<and> startTimeFalsy (startTime s)
             then Some now else startTime s)
       \<and> (lower key = lower [typingPhrase s ! currentIndex s] \<longrightarrow>
            isTimerRunning (snd (handleKeyPress lower key now s)) =
              (if currentIndex s + 1 = length (typingPhrase s) then False
               else if currentIndex s = 0 \<and> startTimeFalsy (startTime s) then True
               else isTimerRunning s))"
  using assms by (simp add: handleKeyPress_def charAt_def Let_def)

text \<open>
  A rejected key in the middle of \<^verbatim>\<open>Hi!\<close> changes nothing; on the untouched session
  a rejected \<^verbatim>\<open>x\<close> and an accepted \<^verbatim>\<open>h\<close> both start the timer.
\<close>

theorem key_press_timer_state_witness:
  "currentIndex exampleLast < length (typingPhrase exampleLast)
   \<and> asciiLower (str ''x'') \<noteq> asciiLower [typingPhrase exampleLast ! currentIndex exampleLast]
   \<and> handleKeyPress asciiLower (str ''x'') 5000 exampleLast = (None, exampleLast)
   \<and> currentIndex exampleSession < length (typingPhrase exampleSession)
   \<and> asciiLower (str ''x'') \<noteq> asciiLower [typingPhrase exampleSession ! currentIndex exampleSession]
   \<and> handleKeyPress asciiLower (str ''x'') 5000 exampleSession
       = (None, exampleSession\<lparr>startTime := Some 5000, isTimerRunning := True\<rparr>)
   \<and> asciiLower (str ''h'') = asciiLower [typingPhrase exampleSession ! currentIndex exampleSession]
   \<and> startTime (snd (handleKeyPress asciiLower (str ''h'') 5000 exampleSession)) = Some 5000
   \<and> isTimerRunning (snd (handleKeyPress asciiLower (str ''h'') 5000 exampleSession))"
proof -
  have h: "currentIndex exampleLast < length (typingPhrase exampleLast)"
    by (simp add: exampleLast_def exampleSession_def initialState_def str_def)
  have m: "asciiLower (str ''x'')
             \<noteq> asciiLower [typingPhrase exampleLast ! currentIndex exampleLast]"
    by (simp add: exampleLast_def exampleSession_def initialState_def str_def asciiLower_def)
  have c: "currentIndex exampleLast \<noteq> 0"
    by (simp add: exampleLast_def)
  have h0: "currentIndex exampleSession < length (typingPhrase exampleSession)"
    by (simp add: exampleSession_def initialState_def str_def)
  have m0: "asciiLower (str ''x'')
              \<noteq> asciiLower [typingPhrase exampleSession ! currentIndex exampleSession]"
    by (simp add: exampleSession_def initialState_def str_def asciiLower_def)
  have a0: "asciiLower (str ''h'')
              = asciiLower [typingPhrase exampleSession ! currentIndex exampleSession]"
    by (simp add: exampleSession_def initialState_def str_def asciiLower_def)
  have f0: "currentIndex exampleSession = 0" "startTimeFalsy (startTime exampleSession)"
    "currentIndex exampleSession + 1 \<noteq> length (typingPhrase exampleSession)"
    by (simp_all add: exampleSession_def initialState_def startTimeFalsy_def str_def)
  from key_press_timer_state [OF h, of asciiLower "str ''x''" 5000] m c
  have 1: "handleKeyPress asciiLower (str ''x'') 5000 exampleLast = (None, exampleLast)"
    by simp
  from key_press_timer_state [OF h0, of asciiLower "str ''x''" 5000] m0 f0
  have 2: "handleKeyPress asciiLower (str ''x'') 5000 exampleSession
             = (None, exampleSession\<lparr>startTime := Some 5000, isTimerRunning := True\<rparr>)"
    by simp
  from key_press_timer_state [OF h0, of asciiLower "str ''h''" 5000] a0 f0
  have 3: "startTime (snd (handleKeyPress asciiLower (str ''h'') 5000 exampleSession)) = Some 5000"
    "isTimerRunning (snd (handleKeyPress asciiLower (str ''h'') 5000 exampleSession))"
    by simp_all
  from h m 1 h0 m0 2 a0 3 show ?thesis
    by blast
qed

text \<open>
  Claim C2 as stated fails: on the untouched session the key \<^verbatim>\<open>x\<close> does not match
  \<^verbatim>\<open>H\<close>, and handling it sets the timer running.
\<close>

theorem rejected_key_starts_timer:
  "\<not> (\<forall>lower key now s.
        currentIndex s < length (typingPhrase s) \<longrightarrow>
        lower key \<noteq> lower [typingPhrase s ! currentIndex s] \<longrightarrow>
        snd (handleKeyPress lower key now s) = s)"
proof
  assume a: "\<forall>lower key now s.
        currentIndex s < length (typingPhrase s) \<longrightarrow>
        lower key \<noteq> lower [typingPhrase s ! currentIndex s] \<longrightarrow>
        snd (handleKeyPress lower key now s) = s"
  have "snd (handleKeyPress asciiLower (str ''x'') 1000 exampleSession) = exampleSession"
    by (rule a [rule_format])
       (simp_all add: exampleSession_def initialState_def str_def asciiLower_def)
  then have "isTimerRunning (snd (handleKeyPress asciiLower (str ''x'') 1000 exampleSession))
               = isTimerRunning exampleSession"
    by simp
  then show False
    by (simp add: handleKeyPress_def charAt_def Let_def exampleSession_def initialState_def
          str_def asciiLower_def startTimeFalsy_def)
qed

subsection \<open>Session invariant\<close>

lemma phraseEffect_fields:
  assumes "phraseEffect sets s = Inr s'"
  shows "currentIndex s' = currentIndex s" "userInput s' = userInput s"
    "startTime s' = startTime s" "elapsedTime s' = elapsedTime s"
    "isTimerRunning s' = isTimerRunning s"
    "currentSetKey s' = currentSetKey s" "currentPhraseIndex s' = currentPhraseIndex s"
  using assms
  by (auto simp: phraseEffect_def Let_def split: if_splits option.splits)

lemma settingsEffects_fields [simp]:
  "currentIndex (settingsEffects old s) = currentIndex s"
  "userInput (settingsEffects old s) = userInput s"
  "typingPhrase (settingsEffects old s) = typingPhrase s"
  "startTime (settingsEffects old s) = startTime s"
  "elapsedTime (settingsEffects old s) = elapsedTime s"
  "isTimerRunning (settingsEffects old s) = isTimerRunning s"
  "currentSetKey (settingsEffects old s) = currentSetKey s"
  "currentPhraseIndex (settingsEffects old s) = currentPhraseIndex s"
  by (simp_all add: settingsEffects_def Let_def saveShowSpaceCharacter_def
        saveEnableKeyTTS_def saveShowKeyboard_def)

lemma previousTimeEffect_fields [simp]:
  "currentIndex (previousTimeEffect s) = currentIndex s"
  "userInput (previousTimeEffect s) = userInput s"
  "typingPhrase (previousTimeEffect s) = typingPhrase s"
  "startTime (previousTimeEffect s) = startTime s"
  "elapsedTime (previousTimeEffect s) = elapsedTime s"
  "isTimerRunning (previousTimeEffect s) = isTimerRunning s"
  "currentSetKey (previousTimeEffect s) = currentSetKey s"
  "currentPhraseIndex (previousTimeEffect s) = currentPhraseIndex s"
  by (simp_all add: previousTimeEffect_def)

lemma runEffects_fields:
  assumes "runEffects sets old new = Inr s'"
  shows "currentIndex s' = currentIndex new" "userInput s' = userInput new"
    "startTime s' = startTime new" "elapsedTime s' = elapsedTime new"
    "isTimerRunning s' = isTimerRunning new"
    "currentSetKey s' = currentSetKey new" "currentPhraseIndex s' = currentPhraseIndex new"
  using assms
  by (auto simp: runEffects_def split: if_splits sum.splits dest: phraseEffect_fields)

lemma runEffects_typingPhrase:
  assumes "runEffects sets old new = Inr s'"
    and "currentSetKey new = currentSetKey old"
    and "currentPhraseIndex new = currentPhraseIndex old"
  shows "typingPhrase s' = typingPhrase new"
  using assms by (auto simp: runEffects_def split: if_splits)

lemma sessionReset_inv: "currentIndex s = 0 \<Longrightarrow> userInput s = [] \<Longrightarrow> sessionInv s"
  by (simp add: sessionInv_def)

lemma handleKeyPress_deps [simp]:
  "currentSetKey (snd (handleKeyPress lower key now s)) = currentSetKey s"
  "currentPhraseIndex (snd (handleKeyPress lower key now s)) = currentPhraseIndex s"
  "typingPhrase (snd (handleKeyPress lower key now s)) = typingPhrase s"
  by (simp_all add: handleKeyPress_def Let_def split: option.splits)

lemma handleKeyPress_inv:
  assumes "sessionInv s"
  shows "sessionInv (snd (handleKeyPress lower key now s))"
proof (cases "currentIndex s < length (typingPhrase s)")
  case True
  then have "take (Suc (currentIndex s)) (typingPhrase s)
               = take (currentIndex s) (typingPhrase s) @ [typingPhrase s ! currentIndex s]"
    by (simp add: take_Suc_conv_app_nth)
  with True assms show ?thesis
    by (auto simp: handleKeyPress_def charAt_def Let_def sessionInv_def)
next
  case False
  with assms show ?thesis
    by (auto simp: handleKeyPress_def charAt_def Let_def sessionInv_def)
qed

lemma goToNextPhrase_cases:
  "goToNextPhrase sets cl s = s
   \<or> (currentIndex (goToNextPhrase sets cl s) = 0 \<and> userInput (goToNextPhrase sets cl s) = []
      \<and> typingPhrase (goToNextPhrase sets cl s) = typingPhrase s)"
  by (simp add: goToNextPhrase_def split: option.splits)

lemma goToPrevPhrase_cases:
  "goToPrevPhrase sets cl s = s
   \<or> (currentIndex (goToPrevPhrase sets cl s) = 0 \<and> userInput (goToPrevPhrase sets cl s) = []
      \<and> typingPhrase (goToPrevPhrase sets cl s) = typingPhrase s)"
  by (simp add: goToPrevPhrase_def split: option.splits)

lemma fireTimeout_cases:
  "(currentIndex (fireTimeout sets s) = currentIndex s
      \<and> userInput (fireTimeout sets s) = userInput s
      \<and> typingPhrase (fireTimeout sets s) = typingPhrase s
      \<and> currentSetKey (fireTimeout sets s) = currentSetKey s
      \<and> currentPhraseIndex (fireTimeout sets s) = currentPhraseIndex s)
   \<or> (currentIndex (fireTimeout sets s) = 0 \<and> userInput (fireTimeout sets s) = []
      \<and> typingPhrase (fireTimeout sets s) = typingPhrase s)"
  by (simp add: fireTimeout_def goToNextPhrase_def split: option.splits list.splits)

lemma handlePhraseSubmit_cases:
  "handlePhraseSubmit s = s
   \<or> (currentIndex (handlePhraseSubmit s) = 0 \<and> userInput (handlePhraseSubmit s) = [])"
  by (simp add: handlePhraseSubmit_def Let_def)

lemma handlePhraseSubmit_deps [simp]:
  "currentSetKey (handlePhraseSubmit s) = currentSetKey s"
  "currentPhraseIndex (handlePhraseSubmit s) = currentPhraseIndex s"
  by (simp_all add: handlePhraseSubmit_def Let_def)

lemma timerTick_fields [simp]:
  "currentIndex (timerTick now s) = currentIndex s"
  "userInput (timerTick now s) = userInput s"
  "typingPhrase (timerTick now s) = typingPhrase s"
  "currentSetKey (timerTick now s) = currentSetKey s"
  "currentPhraseIndex (timerTick now s) = currentPhraseIndex s"
  by (simp_all add: timerTick_def split: option.splits)

text \<open>A handler that changes what the phrase effect depends on has reset the cursor.\<close>

lemma handle_inv:
  assumes "sessionInv s"
  shows "sessionInv (handle sets lower e s)
       \<and> (currentSetKey (handle sets lower e s) \<noteq> currentSetKey s
            \<or> currentPhraseIndex (handle sets lower e s) \<noteq> currentPhraseIndex s
          \<longrightarrow> currentIndex (handle sets lower e s) = 0 \<and> userInput (handle sets lower e s) = [])"
proof (cases e)
  case (KeyDown key now)
  with assms show ?thesis by (simp add: handleKeyPress_inv)
next
  case ClickNext
  with assms goToNextPhrase_cases [of sets "currentClosure s" s] show ?thesis
    by (auto simp: sessionInv_def)
next
  case ClickPrev
  with assms goToPrevPhrase_cases [of sets "currentClosure s" s] show ?thesis
    by (auto simp: sessionInv_def)
next
  case (SelectSet k)
  then show ?thesis by (simp add: handleSetChange_def sessionInv_def)
next
  case (EditCustom t)
  with assms show ?thesis by (simp add: sessionInv_def)
next
  case SubmitPhrase
  with assms handlePhraseSubmit_cases [of s] show ?thesis
    by (auto simp: sessionInv_def)
next
  case (Tick now)
  with assms show ?thesis by (simp add: sessionInv_def)
next
  case TimeoutFires
  with assms fireTimeout_cases [of sets s] show ?thesis
    by (auto simp: sessionInv_def)
next
  case ToggleSpace
  with assms show ?thesis by (simp add: sessionInv_def)
next
  case ToggleTTS
  with assms show ?thesis by (simp add: sessionInv_def)
next
  case ToggleKeyboard
  with assms show ?thesis by (simp add: sessionInv_def)
qed

lemma step_inv:
  assumes "sessionInv s" and "step sets lower e s = Inr s'"
  shows "sessionInv s'"
proof -
  let ?h = "handle sets lower e s"
  from assms(2) have r: "runEffects sets s ?h = Inr s'"
    by (simp add: step_def)
  note f = runEffects_fields [OF r]
  from handle_inv [OF assms(1), of sets lower e]
  have hi: "sessionInv ?h"
    and hd: "currentSetKey ?h \<noteq> currentSetKey s \<or> currentPhraseIndex ?h \<noteq> currentPhraseIndex s
             \<Longrightarrow> currentIndex ?h = 0 \<and> userInput ?h = []"
    by blast+
  show ?thesis
  proof (cases "currentSetKey ?h = currentSetKey s \<and> currentPhraseIndex ?h = currentPhraseIndex s")
    case True
    then have "typingPhrase s' = typingPhrase ?h"
      using runEffects_typingPhrase [OF r] by simp
    with hi f show ?thesis by (simp add: sessionInv_def)
  next
    case False
    then have "currentIndex ?h = 0 \<and> userInput ?h = []" using hd by blast
    with f show ?thesis by (simp add: sessionInv_def)
  qed
qed

lemma mount_inv:
  assumes "mount sets kb sp tts storage = Inr s"
  shows "sessionInv s"
proof -
  from assms obtain s1 where p: "phraseEffect sets (initialState kb sp tts storage) = Inr s1"
    and s: "s = saveShowKeyboard (saveEnableKeyTTS (saveShowSpaceCharacter (previousTimeEffect s1)))"
    by (auto simp: mount_def split: sum.splits)
  from phraseEffect_fields [OF p] have "currentIndex s1 = 0" "userInput s1 = []"
    by (simp_all add: initialState_def)
  with s show ?thesis
    by (simp add: sessionInv_def saveShowKeyboard_def saveEnableKeyTTS_def
          saveShowSpaceCharacter_def)
qed

lemma reachable_inv: "reachable sets lower s \<Longrightarrow> sessionInv s"
proof (induction rule: reachable.induct)
  case (fresh kb sp tts storage s)
  then show ?case by (rule mount_inv)
next
  case (after s e s')
  then show ?case by (blast intro: step_inv)
qed

lemma setupPhrase_Hi: "setupPhrase (str ''Hi!'') = \<lparr>display = str ''Hi!'', typing = str ''Hi!''\<rparr>"
  by (simp add: setupPhrase_def specialCharMap_def replaceAll_def str_def)

lemma mount_example: "mount exampleSets True True True Map.empty = Inr exampleFresh"
  by (simp add: mount_def phraseEffect_def exampleSets_def initialState_def phraseAt_def
        setupPhrase_Hi exampleFresh_def exampleSession_def Let_def)
     (simp add: str_def)

lemma handleKeyPress_flags [simp]:
  "showSpaceCharacter (snd (handleKeyPress lower key now s)) = showSpaceCharacter s"
  "enableKeyTTS (snd (handleKeyPress lower key now s)) = enableKeyTTS s"
  "showKeyboard (snd (handleKeyPress lower key now s)) = showKeyboard s"
  by (simp_all add: handleKeyPress_def Let_def complete_def speakLetter_def speakPhrase_def
        split: option.splits)

lemma step_KeyDown:
  "step sets lower (KeyDown key now) s = Inr (snd (handleKeyPress lower key now s))"
  by (simp add: step_def runEffects_def settingsEffects_def Let_def)

lemma exampleFresh_fields:
  "typingPhrase exampleFresh = str ''Hi!''" "currentIndex exampleFresh = 0"
  "userInput exampleFresh = []"
  by (simp_all add: exampleFresh_def exampleSession_def initialState_def
        saveShowKeyboard_def saveEnableKeyTTS_def saveShowSpaceCharacter_def)

subsection \<open>Cursor\<close>

text \<open>
  Claim C3. In every state reachable from a fresh session the cursor is between 0 and the
  length of the typing phrase. A single event leaves the cursor as it is, moves it on by
  exactly one, or sets it to 0; it moves on only on a key press, and a key press never
  sets it back. The events are all those of the component: keys, Next, Previous, set
  selection, editing and submitting a custom phrase, timer ticks, the automatic advance
  and the switches.
\<close>

theorem cursor_bounds_and_moves:
  "(reachable sets lower s \<longrightarrow> currentIndex s \<le> length (typingPhrase s))
   \<and> (step sets lower e s = Inr s' \<longrightarrow>
        (currentIndex s' = currentIndex s \<or> currentIndex s' = currentIndex s + 1
           \<or> currentIndex s' = 0)
        \<and> (currentIndex s' = currentIndex s + 1 \<longrightarrow> (\<exists>key now. e = KeyDown key now))
        \<and> ((\<exists>key now. e = KeyDown key now) \<longrightarrow>
             currentIndex s' = currentIndex s \<or> currentIndex s' = currentIndex s + 1))"
proof (intro conjI impI)
  assume "reachable sets lower s"
  then show "currentIndex s \<le> length (typingPhrase s)"
    using reachable_inv by (simp add: sessionInv_def)
next
  assume st: "step sets lower e s = Inr s'"
  then have c: "currentIndex s' = currentIndex (handle sets lower e s)"
    by (simp add: step_def runEffects_fields)
  have k: "currentIndex (snd (handleKeyPress lower key now s)) = currentIndex s
         \<or> currentIndex (snd (handleKeyPress lower key now s)) = currentIndex s + 1"
    for key now
    by (simp add: handleKeyPress_def Let_def split: option.splits)
  have h: "(\<exists>key now. e = KeyDown key now)
             \<and> (currentIndex (handle sets lower e s) = currentIndex s
                  \<or> currentIndex (handle sets lower e s) = currentIndex s + 1)
         \<or> (\<forall>key now. e \<noteq> KeyDown key now)
             \<and> (currentIndex (handle sets lower e s) = currentIndex s
                  \<or> currentIndex (handle sets lower e s) = 0)"
  proof (cases e)
    case (KeyDown key now)
    with k [of key now] show ?thesis by auto
  next
    case ClickNext
    with goToNextPhrase_cases [of sets "currentClosure s" s] show ?thesis by auto
  next
    case ClickPrev
    with goToPrevPhrase_cases [of sets "currentClosure s" s] show ?thesis by auto
  next
    case SubmitPhrase
    with handlePhraseSubmit_cases [of s] show ?thesis by auto
  next
    case TimeoutFires
    with fireTimeout_cases [of sets s] show ?thesis by auto
  qed (simp_all add: handleSetChange_def)
  from h c show "currentIndex s' = currentIndex s \<or> currentIndex s' = currentIndex s + 1
           \<or> currentIndex s' = 0"
    by auto
  from h c show "\<exists>key now. e = KeyDown key now" if "currentIndex s' = currentIndex s + 1"
    using that by auto
  from h c show "currentIndex s' = currentIndex s \<or> currentIndex s' = currentIndex s + 1"
    if "\<exists>key now. e = KeyDown key now"
    using that by auto
qed

theorem cursor_bounds_and_moves_witness:
  "reachable exampleSets asciiLower exampleFresh
   \<and> currentIndex exampleFresh \<le> length (typingPhrase exampleFresh)
   \<and> (\<exists>s'. step exampleSets asciiLower (KeyDown (str ''h'') 1000) exampleFresh = Inr s'
          \<and> currentIndex s' = currentIndex exampleFresh + 1)"
proof -
  have r: "reachable exampleSets asciiLower exampleFresh"
    using mount_example by (rule reachable.fresh)
  obtain s' where s': "s' = snd (handleKeyPress asciiLower (str ''h'') 1000 exampleFresh)"
    by simp
  have st: "step exampleSets asciiLower (KeyDown (str ''h'') 1000) exampleFresh = Inr s'"
    by (simp add: step_KeyDown s')
  have n: "currentIndex s' \<noteq> currentIndex exampleFresh"
    by (simp add: s' handleKeyPress_def charAt_def Let_def exampleFresh_fields)
       (simp add: str_def asciiLower_def)
  from cursor_bounds_and_moves [of exampleSets asciiLower exampleFresh
      "KeyDown (str ''h'') 1000" s'] r st n
  show ?thesis by auto
qed

text \<open>
  Claim C9. In every state reachable from a fresh session, \<open>userInput\<close> is the prefix of
  the typing phrase that ends at the cursor.
\<close>

theorem input_is_typed_prefix:
  assumes "reachable sets lower s"
  shows "userInput s = take (currentIndex s) (typingPhrase s)"
  using reachable_inv [OF assms] by (simp add: sessionInv_def)

theorem input_is_typed_prefix_witness:
  "\<exists>s. reachable exampleSets asciiLower s \<and> currentIndex s = 1 \<and> userInput s = str ''H''
       \<and> userInput s = take (currentIndex s) (typingPhrase s)"
proof -
  let ?s = "snd (handleKeyPress asciiLower (str ''h'') 1000 exampleFresh)"
  have r0: "reachable exampleSets asciiLower exampleFresh"
    using mount_example by (rule reachable.fresh)
  have r: "reachable exampleSets asciiLower ?s"
    using r0 step_KeyDown by (rule reachable.after)
  have v: "currentIndex ?s = 1 \<and> userInput ?s = str ''H''"
    by (simp add: handleKeyPress_def charAt_def Let_def exampleFresh_fields)
       (simp add: str_def asciiLower_def)
  from input_is_typed_prefix [OF r] r v show ?thesis by blast
qed

lemma jsrem_pos:
  assumes "0 \<le> a" and "0 < n"
  shows "jsrem (Number a) (Number n) = Number (a mod n)"
proof (cases "a = 0")
  case True
  with assms show ?thesis by simp
next
  case False
  with assms have "sgn a = 1" by simp
  with assms show ?thesis by simp
qed

lemma phraseAt_in_range:
  assumes "0 \<le> k" and "k < int (length ps)"
  shows "phraseAt ps (Number k) = Some (ps ! nat k)"
  using assms by (simp add: phraseAt_def)

lemma phraseEffect_in_range:
  assumes "sets (currentSetKey s) = Some cs" and "currentPhraseIndex s = Number k"
    and "0 \<le> k" and "k < int (length (phrases cs))"
  shows "\<exists>s'. phraseEffect sets s = Inr s'"
  using assms by (simp add: phraseEffect_def phraseAt_def Let_def)

lemma runEffects_in_range:
  assumes "sets (currentSetKey new) = Some cs" and "currentPhraseIndex new = Number k"
    and "0 \<le> k" and "k < int (length (phrases cs))"
  shows "\<exists>s'. runEffects sets old new = Inr s' \<and> currentPhraseIndex s' = Number k"
proof -
  from phraseEffect_in_range [of sets new cs k] assms
  obtain s1 where p: "phraseEffect sets new = Inr s1"
    by blast
  then have "currentPhraseIndex s1 = Number k"
    using assms(2) by (simp add: phraseEffect_fields)
  with p assms(2) show ?thesis
    by (simp add: runEffects_def)
qed

subsection \<open>Phrase Set Navigator\<close>

text \<open>
  Claim C4. In a set of \<open>n > 0\<close> phrases at index \<open>i\<close> with \<open>0 \<le> i < n\<close>, Next moves the
  index to \<open>(i + 1) mod n\<close> and Previous to \<open>(i - 1 + n) mod n\<close>; so Next on the last
  index gives 0 and Previous on index 0 gives the last index. Both as the handlers
  compute it and as the state after the whole step, which succeeds.
\<close>

theorem navigator_wraparound:
  assumes "sets (currentSetKey s) = Some cs"
    and "phrases cs \<noteq> []"
    and "currentPhraseIndex s = Number i"
    and "0 \<le> i" and "i < int (length (phrases cs))"
  shows "currentPhraseIndex (goToNextPhrase sets (currentClosure s) s)
           = Number ((i + 1) mod int (length (phrases cs)))
       \<and> currentPhraseIndex (goToPrevPhrase sets (currentClosure s) s)
           = Number ((i - 1 + int (length (phrases cs))) mod int (length (phrases cs)))
       \<and> (i = int (length (phrases cs)) - 1 \<longrightarrow>
            currentPhraseIndex (goToNextPhrase sets (currentClosure s) s) = Number 0)
       \<and> (i = 0 \<longrightarrow>
            currentPhraseIndex (goToPrevPhrase sets (currentClosure s) s)
              = Number (int (length (phrases cs)) - 1))
       \<and> (\<exists>s'. step sets lower ClickNext s = Inr s'
              \<and> currentPhraseIndex s' = Number ((i + 1) mod int (length (phrases cs))))
       \<and> (\<exists>s'. step sets lower ClickPrev s = Inr s'
              \<and> currentPhraseIndex s' = Number ((i - 1 + int (length (phrases cs)))
                                                  mod int (length (phrases cs))))"
proof -
  let ?n = "int (length (phrases cs))"
  let ?next = "goToNextPhrase sets (currentClosure s) s"
  let ?prev = "goToPrevPhrase sets (currentClosure s) s"
  from assms(2) have n: "0 < ?n" by simp
  have nx: "currentPhraseIndex ?next = Number ((i + 1) mod ?n)"
    using assms n by (simp add: goToNextPhrase_def currentClosure_def jsrem_pos del: jsrem.simps)
  have pv: "currentPhraseIndex ?prev = Number ((i - 1 + ?n) mod ?n)"
    using assms n by (simp add: goToPrevPhrase_def currentClosure_def jsrem_pos del: jsrem.simps)
  have kn: "sets (currentSetKey ?next) = Some cs"
    using assms(1) by (simp add: goToNextPhrase_def currentClosure_def)
  have kp: "sets (currentSetKey ?prev) = Some cs"
    using assms(1) by (simp add: goToPrevPhrase_def currentClosure_def)
  have rn: "0 \<le> (i + 1) mod ?n" "(i + 1) mod ?n < ?n"
    using n by simp_all
  have rp: "0 \<le> (i - 1 + ?n) mod ?n" "(i - 1 + ?n) mod ?n < ?n"
    using n by simp_all
  have last: "(i + 1) mod ?n = 0" if "i = ?n - 1"
    using that by simp
  have first: "(i - 1 + ?n) mod ?n = ?n - 1" if "i = 0"
  proof -
    from that have "i - 1 + ?n = ?n - 1" by simp
    moreover from n have "(?n - 1) mod ?n = ?n - 1" by (intro mod_pos_pos_trivial) simp_all
    ultimately show ?thesis by (simp only:)
  qed
  from runEffects_in_range [of sets ?next cs "(i + 1) mod ?n" s] kn nx rn
  have sn: "\<exists>s'. step sets lower ClickNext s = Inr s'
              \<and> currentPhraseIndex s' = Number ((i + 1) mod ?n)"
    by (simp add: step_def)
  from runEffects_in_range [of sets ?prev cs "(i - 1 + ?n) mod ?n" s] kp pv rp
  have sp: "\<exists>s'. step sets lower ClickPrev s = Inr s'
              \<and> currentPhraseIndex s' = Number ((i - 1 + ?n) mod ?n)"
    by (simp add: step_def)
  from nx pv last first sn sp show ?thesis
    by simp
qed

theorem navigator_wraparound_witness:
  "exampleSets (currentSetKey exampleSession) \<noteq> None
   \<and> currentPhraseIndex exampleSession = Number 0
   \<and> currentPhraseIndex (goToNextPhrase exampleSets (currentClosure exampleSession) exampleSession)
       = Number 1
   \<and> currentPhraseIndex (goToPrevPhrase exampleSets (currentClosure exampleSession) exampleSession)
       = Number 2"
proof -
  let ?cs = "\<lparr>setName = str ''Family'', phrases = [str ''Hi!'', str ''cat'', str ''a dog'']\<rparr>"
  have a: "exampleSets (currentSetKey exampleSession) = Some ?cs"
    by (simp add: exampleSets_def exampleSession_def initialState_def)
  have b: "phrases ?cs \<noteq> []" by simp
  have c: "currentPhraseIndex exampleSession = Number 0"
    by (simp add: exampleSession_def initialState_def)
  have d: "(0::int) \<le> 0" "0 < int (length (phrases ?cs))" by simp_all
  from navigator_wraparound [of exampleSets exampleSession ?cs 0 asciiLower] a b c d
  show ?thesis
    by simp
qed

lemma goToNextPhrase_reset:
  "sets (capturedSetKey cl) \<noteq> None \<Longrightarrow> sessionReset (goToNextPhrase sets cl s)"
  by (auto simp: goToNextPhrase_def sessionReset_def)

lemma goToPrevPhrase_reset:
  "sets (capturedSetKey cl) \<noteq> None \<Longrightarrow> sessionReset (goToPrevPhrase sets cl s)"
  by (auto simp: goToPrevPhrase_def sessionReset_def)

lemma runEffects_reset:
  "runEffects sets old new = Inr s' \<Longrightarrow> sessionReset s' = sessionReset new"
  by (simp add: sessionReset_def runEffects_fields)

text \<open>
  With phrase-set data that has the key \<^verbatim>\<open>familySet\<close>, which the component starts
  on, the current set key names an available set in every state the page can be in.
\<close>

lemma userReachable_reachable: "userReachable sets lower s \<Longrightarrow> reachable sets lower s"
  by (induction rule: userReachable.induct) (auto intro: reachable.intros)

lemma fireTimeout_setKey [simp]: "currentSetKey (fireTimeout sets s) = currentSetKey s"
  by (simp add: fireTimeout_def goToNextPhrase_def split: list.splits option.splits)

lemma handle_setKey:
  "currentSetKey (handle sets lower e s)
     = (case e of SelectSet newSetKey \<Rightarrow> newSetKey | _ \<Rightarrow> currentSetKey s)"
  by (cases e)
     (simp_all add: goToNextPhrase_def goToPrevPhrase_def handleSetChange_def
        split: option.splits)

lemma mount_setKey:
  assumes "mount sets kb sp tts storage = Inr s"
  shows "currentSetKey s = str ''familySet''"
proof -
  from assms obtain s1 where p: "phraseEffect sets (initialState kb sp tts storage) = Inr s1"
    and s: "s = saveShowKeyboard (saveEnableKeyTTS (saveShowSpaceCharacter (previousTimeEffect s1)))"
    by (auto simp: mount_def split: sum.splits)
  from phraseEffect_fields(6) [OF p] have "currentSetKey s1 = str ''familySet''"
    by (simp add: initialState_def)
  with s show ?thesis
    by (simp add: saveShowKeyboard_def saveEnableKeyTTS_def saveShowSpaceCharacter_def)
qed

lemma current_set_available:
  assumes "sets (str ''familySet'') \<noteq> None" and "userReachable sets lower s"
  shows "sets (currentSetKey s) \<noteq> None"
  using assms(2)
proof (induction rule: userReachable.induct)
  case (started kb sp tts storage s)
  with assms(1) show ?case by (simp add: mount_setKey)
next
  case (performed s e s')
  from performed.hyps(3)
  have "currentSetKey s'
          = (case e of SelectSet newSetKey \<Rightarrow> newSetKey | _ \<Rightarrow> currentSetKey s)"
    by (simp add: step_def runEffects_fields handle_setKey)
  with performed.IH performed.hyps(2) show ?case
    by (cases e) (simp_all add: offered_def)
qed

text \<open>
  Claim C5. Each of the four operations resets the session: afterwards the cursor is 0,
  the input empty, no start time is set, the elapsed time is 0 and the timer is not
  running. This holds of the handlers and of the state after the whole step, in every
  state the page can be in, for a custom phrase that is not empty after trimming. The
  phrase-set data, which is not part of the sources, is any mapping that has the key the
  component starts on.
\<close>

theorem reset_operations:
  assumes "sets (str ''familySet'') \<noteq> None" and "userReachable sets lower s"
  shows "sessionReset (handleSetChange newSetKey s)
       \<and> sessionReset (goToNextPhrase sets (currentClosure s) s)
       \<and> sessionReset (goToPrevPhrase sets (currentClosure s) s)
       \<and> (trim (customPhrase s) \<noteq> [] \<longrightarrow> sessionReset (handlePhraseSubmit s))
       \<and> (e = SelectSet newSetKey \<or> e = ClickNext \<or> e = ClickPrev
            \<or> e = SubmitPhrase \<and> trim (customPhrase s) \<noteq> []
           \<longrightarrow> step sets lower e s = Inr s' \<longrightarrow> sessionReset s')"
proof -
  from current_set_available [OF assms]
  have k: "sets (capturedSetKey (currentClosure s)) \<noteq> None"
    by (simp add: currentClosure_def)
  have 1: "sessionReset (handleSetChange newSetKey s)"
    by (simp add: handleSetChange_def sessionReset_def)
  have 2: "sessionReset (goToNextPhrase sets (currentClosure s) s)"
    using k by (rule goToNextPhrase_reset)
  have 3: "sessionReset (goToPrevPhrase sets (currentClosure s) s)"
    using k by (rule goToPrevPhrase_reset)
  have 4: "sessionReset (handlePhraseSubmit s)" if "trim (customPhrase s) \<noteq> []"
    using that by (simp add: handlePhraseSubmit_def sessionReset_def Let_def)
  have 5: "sessionReset s'"
    if e: "e = SelectSet newSetKey \<or> e = ClickNext \<or> e = ClickPrev
            \<or> e = SubmitPhrase \<and> trim (customPhrase s) \<noteq> []"
      and st: "step sets lower e s = Inr s'"
  proof -
    from e 1 2 3 4 have "sessionReset (handle sets lower e s)"
      by auto
    with st show ?thesis
      by (simp add: step_def runEffects_reset)
  qed
  from 1 2 3 4 5 show ?thesis
    by blast
qed

theorem reset_operations_witness:
  "exampleSets (str ''familySet'') \<noteq> None
   \<and> (\<exists>s. userReachable exampleSets asciiLower s
          \<and> currentIndex s = 1 \<and> \<not> sessionReset s
          \<and> sessionReset (handleSetChange (str ''familySet'') s)
          \<and> sessionReset (goToNextPhrase exampleSets (currentClosure s) s)
          \<and> sessionReset (goToPrevPhrase exampleSets (currentClosure s) s))"
proof -
  let ?s = "snd (handleKeyPress asciiLower (str ''h'') 1000 exampleFresh)"
  have a: "exampleSets (str ''familySet'') \<noteq> None"
    by (simp add: exampleSets_def)
  have r0: "userReachable exampleSets asciiLower exampleFresh"
    using mount_example by (rule userReachable.started)
  have r: "userReachable exampleSets asciiLower ?s"
    using r0 _ step_KeyDown by (rule userReachable.performed) (simp add: offered_def)
  have c: "currentIndex ?s = 1"
    by (simp add: handleKeyPress_def charAt_def Let_def exampleFresh_fields)
       (simp add: str_def asciiLower_def)
  then have n: "\<not> sessionReset ?s"
    by (simp add: sessionReset_def)
  from reset_operations [OF a r, of "str ''familySet''" ClickNext ?s] a r c n
  show ?thesis
    by blast
qed

subsection \<open>Completion\<close>

lemma handleKeyPress_accept:
  assumes "currentIndex s < length (typingPhrase s)"
    and "lower key = lower [typingPhrase s ! currentIndex s]"
  shows "currentIndex (snd (handleKeyPress lower key now s)) = currentIndex s + 1"
  using assms by (simp add: handleKeyPress_def charAt_def Let_def)

text \<open>
  The whole effect of the key that completes the phrase: the handler returns normally,
  and the state is the old one with the start time set if this is also the first key,
  the timer stopped, the character appended and the cursor at the end, the elapsed time
  stored under the key of the typing phrase, the letter and the announcement spoken,
  and one callback scheduled with a delay of 3000 ms. Every other cell is unchanged.
\<close>

lemma completion_effects:
  assumes "currentIndex s < length (typingPhrase s)"
    and "lower key = lower [typingPhrase s ! currentIndex s]"
    and "currentIndex s + 1 = length (typingPhrase s)"
  shows "handleKeyPress lower key now s =
     (None,
      s\<lparr>startTime := (if currentIndex s = 0 \<and> startTimeFalsy (startTime s)
                       then Some now else startTime s),
        isTimerRunning := False,
        userInput := userInput s @ [typingPhrase s ! currentIndex s],
        currentIndex := length (typingPhrase s),
        localStorage :=
          (localStorage s)(storageKey (typingPhrase s) \<mapsto> intToString (elapsedTime s)),
        spoken := spoken s
          @ (if enableKeyTTS s
             then [Letter (if key = str '' '' then str ''space'' else key)] else [])
          @ [case announcement (timeDifference (previousTime s) (elapsedTime s))
                    (elapsedTime s) of
               Some txt \<Rightarrow> Sentence txt
             | None \<Rightarrow> UnfollowedSentence],
        timeouts := timeouts s @ [(3000, currentClosure s)]\<rparr>)"
proof -
  have c: "charAt (typingPhrase s) (currentIndex s) = Some (typingPhrase s ! currentIndex s)"
    using assms(1) by (simp add: charAt_def)
  show ?thesis
    using assms c
    by (cases "announcement (timeDifference (previousTime s) (elapsedTime s)) (elapsedTime s)")
       (simp_all add: handleKeyPress_def Let_def complete_def speakPhrase_def speakLetter_def)
qed


text \<open>
  The sentence spoken on completion. It is the first-attempt sentence when the cell
  \<open>previousTime\<close> is empty; with a previous time \<open>p\<close> it reports \<open>p\<close> minus the elapsed
  time, as faster when positive and slower when negative.
\<close>

lemma completion_announcement:
  assumes "currentIndex s < length (typingPhrase s)"
    and "lower key = lower [typingPhrase s ! currentIndex s]"
    and "currentIndex s + 1 = length (typingPhrase s)"
  shows "(previousTime s = None \<longrightarrow>
            spoken (snd (handleKeyPress lower key now s)) =
              spoken s
              @ (if enableKeyTTS s
                 then [Letter (if key = str '' '' then str ''space'' else key)] else [])
              @ [Sentence (str ''Great job! You finished in '' @ intToString (elapsedTime s)
                    @ str '' seconds. That'' @ [0x27]
                    @ str ''s your first attempt with this phrase.'')])
       \<and> (\<forall>p. previousTime s = Some (Safe p) \<and> safeInteger (p - elapsedTime s) \<longrightarrow>
            spoken (snd (handleKeyPress lower key now s)) =
              spoken s
              @ (if enableKeyTTS s
                 then [Letter (if key = str '' '' then str ''space'' else key)] else [])
              @ [Sentence (str ''Great job! You finished in '' @ intToString (elapsedTime s)
                    @ str '' seconds. ''
                    @ (if p - elapsedTime s > 0
                       then str ''You were '' @ intToString (p - elapsedTime s)
                              @ str '' seconds faster!''
                       else if p - elapsedTime s < 0
                       then str ''You were '' @ intToString (elapsedTime s - p)
                              @ str '' seconds slower.''
                       else str ''You matched your previous time exactly!''))])
       \<and> (previousTime s = Some NotANumber \<longrightarrow>
            spoken (snd (handleKeyPress lower key now s)) =
              spoken s
              @ (if enableKeyTTS s
                 then [Letter (if key = str '' '' then str ''space'' else key)] else [])
              @ [Sentence (str ''Great job! You finished in '' @ intToString (elapsedTime s)
                    @ str '' seconds. You matched your previous time exactly!'')])"
proof (intro conjI allI impI)
  assume "previousTime s = None"
  then show "spoken (snd (handleKeyPress lower key now s)) =
              spoken s
              @ (if enableKeyTTS s
                 then [Letter (if key = str '' '' then str ''space'' else key)] else [])
              @ [Sentence (str ''Great job! You finished in '' @ intToString (elapsedTime s)
                    @ str '' seconds. That'' @ [0x27]
                    @ str ''s your first attempt with this phrase.'')]"
    by (simp add: completion_effects [OF assms] timeDifference_def announcement_def)
next
  fix p
  assume "previousTime s = Some (Safe p) \<and> safeInteger (p - elapsedTime s)"
  moreover have "\<bar>d\<bar> = d" if "0 < d" for d :: int using that by simp
  moreover have "\<bar>p - elapsedTime s\<bar> = elapsedTime s - p" if "p - elapsedTime s < 0"
    using that by simp
  ultimately show "spoken (snd (handleKeyPress lower key now s)) =
              spoken s
              @ (if enableKeyTTS s
                 then [Letter (if key = str '' '' then str ''space'' else key)] else [])
              @ [Sentence (str ''Great job! You finished in '' @ intToString (elapsedTime s)
                    @ str '' seconds. ''
                    @ (if p - elapsedTime s > 0
                       then str ''You were '' @ intToString (p - elapsedTime s)
                              @ str '' seconds faster!''
                       else if p - elapsedTime s < 0
                       then str ''You were '' @ intToString (elapsedTime s - p)
                              @ str '' seconds slower.''
                       else str ''You matched your previous time exactly!''))]"
    by (simp add: completion_effects [OF assms] timeDifference_def announcement_def
          improvementText_def toDouble_def)
next
  assume "previousTime s = Some NotANumber"
  then show "spoken (snd (handleKeyPress lower key now s)) =
              spoken s
              @ (if enableKeyTTS s
                 then [Letter (if key = str '' '' then str ''space'' else key)] else [])
              @ [Sentence (str ''Great job! You finished in '' @ intToString (elapsedTime s)
                    @ str '' seconds. You matched your previous time exactly!'')]"
    by (simp add: completion_effects [OF assms] timeDifference_def announcement_def
          improvementText_def str_def)
qed

lemma phraseEffect_loads:
  assumes "currentSetKey s \<noteq> []" and "sets (currentSetKey s) = Some cs"
    and "currentPhraseIndex s = Number k" and "0 \<le> k" and "k < int (length (phrases cs))"
  shows "phraseEffect sets s =
           Inr (s\<lparr>displayPhrase := display (setupPhrase (phrases cs ! nat k)),
                  typingPhrase := typing (setupPhrase (phrases cs ! nat k))\<rparr>)"
proof -
  from assms(4,5) have "phrases cs \<noteq> []" by auto
  with assms show ?thesis
    by (simp add: phraseEffect_def phraseAt_def Let_def)
qed

text \<open>
  The scheduled callback, when it fires as the only pending one, advances: the phrase
  index moves to the next one of the set the phrase was completed in, the session is
  reset, and the typing phrase is the next phrase of that set when the index changed.
\<close>

lemma automatic_advance:
  assumes "currentIndex s < length (typingPhrase s)"
    and "lower key = lower [typingPhrase s ! currentIndex s]"
    and "currentIndex s + 1 = length (typingPhrase s)"
    and "timeouts s = []"
    and "currentSetKey s \<noteq> []" and "sets (currentSetKey s) = Some cs"
    and "currentPhraseIndex s = Number i" and "0 \<le> i" and "i < int (length (phrases cs))"
  shows "\<exists>s''. step sets lower TimeoutFires (snd (handleKeyPress lower key now s)) = Inr s''
           \<and> currentPhraseIndex s'' = Number ((i + 1) mod int (length (phrases cs)))
           \<and> sessionReset s''
           \<and> timeouts s'' = []
           \<and> ((i + 1) mod int (length (phrases cs)) \<noteq> i \<longrightarrow>
                typingPhrase s''
                  = typing (setupPhrase
                      (phrases cs ! nat ((i + 1) mod int (length (phrases cs))))))"
proof -
  let ?n = "int (length (phrases cs))"
  let ?j = "(i + 1) mod ?n"
  let ?s' = "snd (handleKeyPress lower key now s)"
  let ?h = "fireTimeout sets ?s'"
  from assms(8,9) have n: "0 < ?n" by linarith
  have t: "timeouts ?s' = [(3000, currentClosure s)]"
    using assms(4) by (simp add: completion_effects [OF assms(1-3)])
  have k: "currentSetKey ?s' = currentSetKey s" "currentPhraseIndex ?s' = currentPhraseIndex s"
    by simp_all
  have h: "?h = (?s'\<lparr>timeouts := []\<rparr>)
                 \<lparr>currentPhraseIndex := Number ?j, userInput := [], currentIndex := 0,
                  startTime := None, elapsedTime := 0, isTimerRunning := False,
                  previousTime := None\<rparr>"
    using assms(6,7,8) n
    by (simp add: fireTimeout_def t goToNextPhrase_def currentClosure_def jsrem_pos
          del: jsrem.simps)
  have hf: "currentSetKey ?h = currentSetKey s" "currentPhraseIndex ?h = Number ?j"
    "timeouts ?h = []" "sessionReset ?h"
    by (simp_all add: h sessionReset_def)
  have r: "0 \<le> ?j" "?j < ?n" using n by simp_all
  show ?thesis
  proof (cases "?j = i")
    case True
    with hf assms(7) k have "runEffects sets ?s' ?h = Inr (settingsEffects ?s' ?h)"
      by (simp add: runEffects_def h)
    moreover have "timeouts (settingsEffects ?s' ?h) = []"
      by (simp add: settingsEffects_def Let_def saveShowSpaceCharacter_def
            saveEnableKeyTTS_def saveShowKeyboard_def hf)
    moreover have "sessionReset (settingsEffects ?s' ?h)"
      using hf(4) by (simp add: sessionReset_def)
    ultimately show ?thesis
      using True hf by (simp add: step_def)
  next
    case False
    from phraseEffect_loads [of ?h sets cs ?j] assms(5,6) hf r
    have p: "phraseEffect sets ?h =
               Inr (?h\<lparr>displayPhrase := display (setupPhrase (phrases cs ! nat ?j)),
                        typingPhrase := typing (setupPhrase (phrases cs ! nat ?j))\<rparr>)"
      by simp
    let ?e = "?h\<lparr>displayPhrase := display (setupPhrase (phrases cs ! nat ?j)),
                   typingPhrase := typing (setupPhrase (phrases cs ! nat ?j))\<rparr>"
    let ?f = "settingsEffects ?s'
                (if typingPhrase ?e \<noteq> typingPhrase ?s' then previousTimeEffect ?e else ?e)"
    from False hf assms(7) k p have ru: "runEffects sets ?s' ?h = Inr ?f"
      by (simp add: runEffects_def)
    have f1: "currentPhraseIndex ?f = Number ?j" "typingPhrase ?f = typing (setupPhrase (phrases cs ! nat ?j))"
      using hf by simp_all
    have f2: "sessionReset ?f"
      using hf(4) by (simp add: sessionReset_def)
    have f3: "timeouts ?f = []"
      using hf(3)
      by (simp add: settingsEffects_def Let_def saveShowSpaceCharacter_def
            saveEnableKeyTTS_def saveShowKeyboard_def previousTimeEffect_def)
    from ru f1 f2 f3 show ?thesis
      by (simp add: step_def)
  qed
qed

lemma handleKeyPress_keeps [simp]:
  "previousTime (snd (handleKeyPress lower key now s)) = previousTime s"
  "elapsedTime (snd (handleKeyPress lower key now s)) = elapsedTime s"
  by (simp_all add: handleKeyPress_def Let_def complete_def speakLetter_def speakPhrase_def
        split: option.splits)

lemma handleKeyPress_storage:
  "currentIndex s + 1 \<noteq> length (typingPhrase s)
   \<Longrightarrow> localStorage (snd (handleKeyPress lower key now s)) = localStorage s"
  by (simp add: handleKeyPress_def Let_def split: option.splits)

lemma step_EditCustom: "step sets lower (EditCustom txt) s = Inr (s\<lparr>customPhrase := txt\<rparr>)"
  by (simp add: step_def runEffects_def settingsEffects_def Let_def)

lemma step_SubmitPhrase: "step sets lower SubmitPhrase s = Inr (handlePhraseSubmit s)"
  by (simp add: step_def runEffects_def settingsEffects_def Let_def handlePhraseSubmit_def
        previousTimeEffect_def)

lemma setupPhrase_cat: "setupPhrase (str ''cat'') = \<lparr>display = str ''cat'', typing = str ''cat''\<rparr>"
  by (simp add: setupPhrase_def specialCharMap_def replaceAll_def str_def)

lemma trim_cat: "trim (str ''cat'') = str ''cat''"
  by (simp add: trim_def isWhiteSpace_def str_def)

lemma parseInt10_4: "parseInt10 (str ''4'') = Safe 4"
  by (simp add: parseInt10_def Let_def isWhiteSpace_def isDigit_def digitsValue_def
        toDouble_def safeInteger_def str_def)

text \<open>
  Claim C8 says that on completion the difference to the previous time is computed when
  a previous time exists. The handler decides that by the cell \<open>previousTime\<close>, which
  Next, Previous and the automatic advance clear, and which is loaded from storage again
  only when the typing phrase becomes a different string. After a custom phrase
  \<^verbatim>\<open>cat\<close> and Next onto the phrase \<^verbatim>\<open>cat\<close> of the set, storage holds the time 4
  for the phrase and the cell is empty: completing the phrase announces a first attempt.
\<close>

theorem completion_ignores_stored_time:
  "\<exists>s. userReachable exampleSets asciiLower s
       \<and> typingPhrase s = str ''cat'' \<and> currentIndex s = 2 \<and> elapsedTime s = 0
       \<and> localStorage s (storageKey (typingPhrase s)) = Some (str ''4'')
       \<and> loadPrevious (localStorage s) (typingPhrase s) = Some (Safe 4)
       \<and> previousTime s = None
       \<and> fst (handleKeyPress asciiLower (str ''t'') 3000 s) = None
       \<and> currentIndex (snd (handleKeyPress asciiLower (str ''t'') 3000 s))
           = length (typingPhrase s)
       \<and> spoken (snd (handleKeyPress asciiLower (str ''t'') 3000 s))
           = spoken s
             @ [Letter (str ''t''),
                Sentence (str ''Great job! You finished in 0 seconds. That'' @ [0x27]
                            @ str ''s your first attempt with this phrase.'')]"
proof -
  define s0 where "s0 = saveShowKeyboard (saveEnableKeyTTS (saveShowSpaceCharacter
       (previousTimeEffect (exampleSession\<lparr>localStorage := exampleStorage\<rparr>))))"
  define s1 where "s1 = s0\<lparr>customPhrase := str ''cat''\<rparr>"
  define s2 where "s2 = handlePhraseSubmit s1"
  define h where "h = goToNextPhrase exampleSets (currentClosure s2) s2"
  define s3 where "s3 = h\<lparr>displayPhrase := str ''cat'', typingPhrase := str ''cat''\<rparr>"
  define s4 where "s4 = snd (handleKeyPress asciiLower (str ''c'') 1000 s3)"
  define s5 where "s5 = snd (handleKeyPress asciiLower (str ''a'') 2000 s4)"
  have k: "storageKey (str ''cat'') = str ''typingTime-cat''"
    by (simp add: storageKey_def str_def)
  have m0: "mount exampleSets True True True exampleStorage = Inr s0"
    by (simp add: mount_def phraseEffect_def exampleSets_def initialState_def phraseAt_def
          setupPhrase_Hi s0_def exampleSession_def Let_def)
       (simp add: str_def)
  have f0: "currentSetKey s0 = str ''familySet''" "currentPhraseIndex s0 = Number 0"
    "typingPhrase s0 = str ''Hi!''" "enableKeyTTS s0" "elapsedTime s0 = 0"
    "localStorage s0 (str ''typingTime-cat'') = Some (str ''4'')"
    "showKeyboard s0" "showSpaceCharacter s0"
    by (simp_all add: s0_def exampleSession_def initialState_def saveShowKeyboard_def
          saveEnableKeyTTS_def saveShowSpaceCharacter_def previousTimeEffect_def
          exampleStorage_def str_def)
  have ne: "str ''cat'' \<noteq> []" "str ''4'' \<noteq> []" "str ''familySet'' \<noteq> []"
    by (simp_all add: str_def)
  have f2: "currentSetKey s2 = str ''familySet''" "currentPhraseIndex s2 = Number 0"
    "typingPhrase s2 = str ''cat''" "enableKeyTTS s2" "elapsedTime s2 = 0"
    "localStorage s2 (str ''typingTime-cat'') = Some (str ''4'')"
    "previousTime s2 = Some (Safe 4)"
    "showKeyboard s2" "showSpaceCharacter s2"
    using f0
    by (simp_all add: s2_def s1_def handlePhraseSubmit_def trim_cat setupPhrase_cat Let_def
          loadPrevious_def k parseInt10_4 ne)
  have fh: "currentSetKey h = str ''familySet''" "currentPhraseIndex h = Number 1"
    "typingPhrase h = str ''cat''" "enableKeyTTS h" "elapsedTime h = 0"
    "localStorage h (str ''typingTime-cat'') = Some (str ''4'')"
    "previousTime h = None" "currentIndex h = 0" "startTime h = None"
    "showKeyboard h" "showSpaceCharacter h"
    using f2
    by (simp_all add: h_def goToNextPhrase_def currentClosure_def exampleSets_def)
  have pe: "phraseEffect exampleSets h = Inr s3"
    using fh
    by (simp add: phraseEffect_def exampleSets_def phraseAt_def setupPhrase_cat Let_def s3_def)
       (simp add: str_def)
  have f3: "typingPhrase s3 = str ''cat''" "enableKeyTTS s3" "elapsedTime s3 = 0"
    "localStorage s3 (str ''typingTime-cat'') = Some (str ''4'')"
    "previousTime s3 = None" "currentIndex s3 = 0"
    "showKeyboard s3" "showSpaceCharacter s3"
    using fh by (simp_all add: s3_def)
  have r0: "userReachable exampleSets asciiLower s0"
    using m0 by (rule userReachable.started)
  have r1: "userReachable exampleSets asciiLower s1"
    using r0 _ step_EditCustom unfolding s1_def
    by (rule userReachable.performed) (simp add: offered_def)
  have r2: "userReachable exampleSets asciiLower s2"
    using r1 _ step_SubmitPhrase unfolding s2_def
    by (rule userReachable.performed) (simp add: offered_def)
  have st3: "step exampleSets asciiLower ClickNext s2 = Inr s3"
    using f2 fh f3 pe
    by (simp add: step_def h_def [symmetric] runEffects_def settingsEffects_def Let_def)
  have r3: "userReachable exampleSets asciiLower s3"
    using r2 _ st3 by (rule userReachable.performed) (simp add: offered_def)
  have r4: "userReachable exampleSets asciiLower s4"
    using r3 _ step_KeyDown unfolding s4_def
    by (rule userReachable.performed) (simp add: offered_def)
  have r5: "userReachable exampleSets asciiLower s5"
    using r4 _ step_KeyDown unfolding s5_def
    by (rule userReachable.performed) (simp add: offered_def)
  have c4: "currentIndex s4 = 1"
    using handleKeyPress_accept [of s3 asciiLower "str ''c''" 1000]
    by (simp add: s4_def f3) (simp add: str_def asciiLower_def)
  have f4: "typingPhrase s4 = str ''cat''" "previousTime s4 = None" "elapsedTime s4 = 0"
    "localStorage s4 = localStorage s3" "enableKeyTTS s4"
    using f3 handleKeyPress_storage [of s3 asciiLower "str ''c''" 1000]
    by (simp_all add: s4_def) (simp add: str_def)
  have c5: "currentIndex s5 = 2"
    using handleKeyPress_accept [of s4 asciiLower "str ''a''" 2000]
    by (simp add: s5_def f4 c4) (simp add: str_def asciiLower_def)
  have f5: "typingPhrase s5 = str ''cat''" "previousTime s5 = None" "elapsedTime s5 = 0"
    "localStorage s5 = localStorage s3" "enableKeyTTS s5"
    using f4 c4 handleKeyPress_storage [of s4 asciiLower "str ''a''" 2000]
    by (simp_all add: s5_def) (simp add: str_def)
  have a: "currentIndex s5 < length (typingPhrase s5)"
    "asciiLower (str ''t'') = asciiLower [typingPhrase s5 ! currentIndex s5]"
    "currentIndex s5 + 1 = length (typingPhrase s5)"
    by (simp_all add: f5 c5 str_def asciiLower_def)
  have z: "intToString 0 = str ''0''"
    by (simp add: intToString_def digits.simps [of 0] str_def)
  have sp: "spoken (snd (handleKeyPress asciiLower (str ''t'') 3000 s5))
              = spoken s5
                @ [Letter (str ''t''),
                   Sentence (str ''Great job! You finished in 0 seconds. That'' @ [0x27]
                               @ str ''s your first attempt with this phrase.'')]"
    using completion_announcement [OF a, of 3000] f5
    by (simp add: z) (simp add: str_def)
  have l: "loadPrevious (localStorage s5) (typingPhrase s5) = Some (Safe 4)"
    by (simp add: f5 f3 loadPrevious_def k parseInt10_4) (simp add: str_def)
  have g: "localStorage s5 (storageKey (typingPhrase s5)) = Some (str ''4'')"
    by (simp add: f5 f3 k)
  have e: "fst (handleKeyPress asciiLower (str ''t'') 3000 s5) = None"
    "currentIndex (snd (handleKeyPress asciiLower (str ''t'') 3000 s5))
       = length (typingPhrase s5)"
    by (simp_all add: completion_effects [OF a])
  from r5 f5 c5 g l e sp show ?thesis
    by blast
qed

subsection \<open>Keys after completion\<close>

lemma example_completed_reachable:
  "\<exists>s. reachable exampleSets asciiLower s
       \<and> typingPhrase s = str ''Hi!'' \<and> currentIndex s = 3"
proof -
  let ?s1 = "snd (handleKeyPress asciiLower (str ''h'') 1000 exampleFresh)"
  let ?s2 = "snd (handleKeyPress asciiLower (str ''i'') 2000 ?s1)"
  let ?s3 = "snd (handleKeyPress asciiLower (str ''!'') 3000 ?s2)"
  have r0: "reachable exampleSets asciiLower exampleFresh"
    using mount_example by (rule reachable.fresh)
  have r1: "reachable exampleSets asciiLower ?s1"
    using r0 step_KeyDown by (rule reachable.after)
  have r2: "reachable exampleSets asciiLower ?s2"
    using r1 step_KeyDown by (rule reachable.after)
  have r3: "reachable exampleSets asciiLower ?s3"
    using r2 step_KeyDown by (rule reachable.after)
  have p: "typingPhrase ?s3 = str ''Hi!''"
    by (simp add: exampleFresh_fields)
  have c1: "currentIndex ?s1 = 1"
    using handleKeyPress_accept [of exampleFresh asciiLower "str ''h''" 1000]
    by (simp add: exampleFresh_fields) (simp add: str_def asciiLower_def)
  have c2: "currentIndex ?s2 = 2"
    using handleKeyPress_accept [of ?s1 asciiLower "str ''i''" 2000]
    by (simp add: exampleFresh_fields c1) (simp add: str_def asciiLower_def)
  have c3: "currentIndex ?s3 = 3"
    using handleKeyPress_accept [of ?s2 asciiLower "str ''!''" 3000]
    by (simp add: exampleFresh_fields c2) (simp add: str_def asciiLower_def)
  from r3 p c3 show ?thesis by blast
qed

text \<open>
  Claim C10 asks that a key pressed while the cursor equals the length of the typing
  phrase reads nothing outside the phrase and changes nothing. The handler does read
  \<^verbatim>\<open>typingPhrase[currentIndex]\<close> there: the read gives \<^verbatim>\<open>undefined\<close> and the handler
  throws a TypeError. On an empty typing phrase it has started the timer before that.
\<close>

theorem key_past_end_throws:
  assumes "length (typingPhrase s) \<le> currentIndex s"
  shows "charAt (typingPhrase s) (currentIndex s) = None
       \<and> fst (handleKeyPress lower key now s) = Some TypeError
       \<and> (currentIndex s = 0 \<and> startTime s = None \<longrightarrow>
            snd (handleKeyPress lower key now s)
              = s\<lparr>startTime := Some now, isTimerRunning := True\<rparr>)"
  using assms by (auto simp: handleKeyPress_def charAt_def Let_def startTimeFalsy_def)

text \<open>
  The failing state is one the component gets into: after the three keys of \<^verbatim>\<open>Hi!\<close>
  the cursor of the fresh example session is 3, and the next key makes the handler throw.
\<close>

theorem key_past_end_throws_witness:
  "length (typingPhrase exampleDone) \<le> currentIndex exampleDone
   \<and> currentIndex exampleDone = 3
   \<and> charAt (typingPhrase exampleDone) (currentIndex exampleDone) = None
   \<and> fst (handleKeyPress asciiLower (str ''a'') 5000 exampleDone) = Some TypeError
   \<and> (\<exists>s. reachable exampleSets asciiLower s
          \<and> typingPhrase s = str ''Hi!'' \<and> currentIndex s = 3
          \<and> fst (handleKeyPress asciiLower (str ''a'') 5000 s) = Some TypeError)"
proof -
  have h: "length (typingPhrase exampleDone) \<le> currentIndex exampleDone"
    by (simp add: exampleDone_def exampleSession_def initialState_def str_def)
  have c: "currentIndex exampleDone = 3"
    by (simp add: exampleDone_def)
  from example_completed_reachable obtain s
    where s: "reachable exampleSets asciiLower s" "typingPhrase s = str ''Hi!''"
      "currentIndex s = 3"
    by blast
  then have hs: "length (typingPhrase s) \<le> currentIndex s"
    by (simp add: str_def)
  from key_past_end_throws [OF hs, of asciiLower "str ''a''" 5000] s
  have "\<exists>s. reachable exampleSets asciiLower s
          \<and> typingPhrase s = str ''Hi!'' \<and> currentIndex s = 3
          \<and> fst (handleKeyPress asciiLower (str ''a'') 5000 s) = Some TypeError"
    by blast
  with key_past_end_throws [OF h, of asciiLower "str ''a''" 5000] h c show ?thesis
    by simp
qed

subsection \<open>Word-Boundary Scanner\<close>

lemma scanWordStart_eq:
  "i \<le> length p \<Longrightarrow> scanWordStart p i = i - length (takeWhile notSpace (rev (take i p)))"
proof (induction i)
  case 0
  then show ?case by simp
next
  case (Suc k)
  then have k: "k < length p" by simp
  then have t: "rev (take (Suc k) p) = p ! k # rev (take k p)"
    by (simp add: take_Suc_conv_app_nth)
  have l: "length (takeWhile notSpace (rev (take k p))) \<le> k"
    using length_takeWhile_le [of notSpace "rev (take k p)"] k by simp
  from Suc k l show ?case
    by (simp add: t charAt_def notSpace_def Suc_diff_le)
qed

lemma scanWordEnd_eq:
  "scanWordEnd p i = i + length (takeWhile notSpace (drop i p))"
proof (induction p i rule: scanWordEnd.induct)
  case (1 p k)
  show ?case
  proof (cases "k < length p")
    case True
    then have d: "drop k p = p ! k # drop (Suc k) p"
      by (simp add: Cons_nth_drop_Suc)
    have n: "notSpace (p ! k) \<longleftrightarrow> p ! k \<noteq> 32"
      by (simp add: notSpace_def)
    from True "1.IH" show ?thesis
      by (subst scanWordEnd.simps) (simp add: d charAt_def n)
  next
    case False
    then show ?thesis
      by (subst scanWordEnd.simps) simp
  qed
qed

lemma substring_in_range:
  "a \<le> b \<Longrightarrow> b \<le> length s \<Longrightarrow> substring s a b = take (b - a) (drop a s)"
  by (simp add: substring_def Let_def min_def max_def)

lemma wordFromCursor_length: "i + length (wordFromCursor p i) \<le> max i (length p)"
  using length_takeWhile_le [of notSpace "drop i p"] by (simp add: wordFromCursor_def)

lemma currentWord_eq:
  assumes "i < length p"
  shows "substring p (scanWordStart p i) (scanWordEnd p i)
           = wordBeforeCursor p i @ wordFromCursor p i"
proof -
  let ?A = "takeWhile notSpace (rev (take i p))"
  let ?B = "takeWhile notSpace (drop i p)"
  have a: "length ?A \<le> i"
    using length_takeWhile_le [of notSpace "rev (take i p)"] assms by simp
  have b: "i + length ?B \<le> length p"
    using length_takeWhile_le [of notSpace "drop i p"] assms by simp
  have ws: "scanWordStart p i = i - length ?A"
    using assms by (simp add: scanWordStart_eq)
  have we: "scanWordEnd p i = i + length ?B"
    by (rule scanWordEnd_eq)
  have "drop (i - length ?A) (take i p) = rev (take (length ?A) (rev (take i p)))"
    using assms by (simp add: take_rev)
  also have "\<dots> = rev ?A"
    by (simp add: takeWhile_eq_take [symmetric])
  finally have front: "drop (i - length ?A) (take i p) = rev ?A" .
  have "drop (i - length ?A) p = drop (i - length ?A) (take i p @ drop i p)"
    by simp
  also have "\<dots> = rev ?A @ drop i p"
    using assms by (simp only: drop_append front) simp
  finally have d: "drop (i - length ?A) p = rev ?A @ drop i p" .
  have len: "i + length ?B - (i - length ?A) = length ?A + length ?B"
    using a by simp
  have "substring p (i - length ?A) (i + length ?B)
          = take (length ?A + length ?B) (drop (i - length ?A) p)"
    using a b by (simp only: len [symmetric]) (rule substring_in_range, simp_all)
  also have "\<dots> = rev ?A @ take (length ?B) (drop i p)"
    by (simp add: d)
  also have "take (length ?B) (drop i p) = ?B"
    by (simp add: takeWhile_eq_take [symmetric])
  finally show ?thesis
    by (simp add: ws we wordBeforeCursor_def wordFromCursor_def)
qed

lemma remaining_eq:
  assumes "i < length p" and "i < scanWordEnd p i"
  shows "substring p (i + 1) (scanWordEnd p i) = tl (wordFromCursor p i)"
proof -
  let ?B = "takeWhile notSpace (drop i p)"
  have b: "i + length ?B \<le> length p"
    using length_takeWhile_le [of notSpace "drop i p"] assms by simp
  have we: "scanWordEnd p i = i + length ?B"
    by (rule scanWordEnd_eq)
  with assms have pos: "0 < length ?B" by simp
  have len: "i + length ?B - (i + 1) = length ?B - 1"
    by simp
  have "substring p (i + 1) (i + length ?B) = take (i + length ?B - (i + 1)) (drop (i + 1) p)"
  proof (rule substring_in_range)
    from pos show "i + 1 \<le> i + length ?B" by linarith
    from b show "i + length ?B \<le> length p" .
  qed
  then have "substring p (i + 1) (i + length ?B) = take (length ?B - 1) (drop (Suc i) p)"
    by (simp only: len) simp
  also have "\<dots> = tl (take (length ?B) (drop i p))"
    by (simp add: tl_take tl_drop drop_Suc)
  also have "take (length ?B) (drop i p) = ?B"
    by (simp add: takeWhile_eq_take [symmetric])
  finally show ?thesis
    by (simp add: we wordFromCursor_def)
qed

text \<open>
  Claim C7, as the code has it. With the cursor at or past the end of the phrase the
  scanner returns the empty word and no letters. Otherwise the current word is the
  stretch without spaces around the cursor, back to the preceding space or the start and
  on to the next space or the end, and the letters returned are the characters of that
  word not yet typed, except the one at the cursor: those after the cursor.
\<close>

theorem word_boundary_scanner:
  "getCurrentWordInfo p i =
     (if length p \<le> i then \<lparr>currentWord = [], remainingLetters = []\<rparr>
      else \<lparr>currentWord = wordBeforeCursor p i @ wordFromCursor p i,
            remainingLetters = splitChars (tl (wordFromCursor p i))\<rparr>)"
proof (cases "length p \<le> i")
  case True
  then show ?thesis by (simp add: getCurrentWordInfo_def)
next
  case False
  then have i: "i < length p" by simp
  show ?thesis
  proof (cases "i < scanWordEnd p i")
    case True
    with i show ?thesis
      using currentWord_eq [OF i] remaining_eq [OF i True]
      by (simp add: getCurrentWordInfo_def Let_def)
  next
    case False
    then have "wordFromCursor p i = []"
      by (simp add: scanWordEnd_eq wordFromCursor_def)
    with i False show ?thesis
      using currentWord_eq [OF i]
      by (simp add: getCurrentWordInfo_def Let_def splitChars_def)
  qed
qed

theorem word_boundary_scanner_witness:
  "getCurrentWordInfo (str ''a dog'') 3
     = \<lparr>currentWord = str ''dog'', remainingLetters = [str ''g'']\<rparr>
   \<and> getCurrentWordInfo (str ''a dog'') 5 = \<lparr>currentWord = [], remainingLetters = []\<rparr>"
proof -
  have b: "wordBeforeCursor (str ''a dog'') 3 = str ''d''"
    by (simp add: wordBeforeCursor_def notSpace_def str_def)
  have f: "wordFromCursor (str ''a dog'') 3 = str ''og''"
    by (simp add: wordFromCursor_def notSpace_def str_def)
  have l: "length (str ''a dog'') = 5"
    by (simp add: str_def)
  from word_boundary_scanner [of "str ''a dog''" 3] word_boundary_scanner [of "str ''a dog''" 5]
  show ?thesis
    by (simp add: b f l) (simp add: str_def splitChars_def)
qed

text \<open>
  Claim C7 as stated, with every character not yet typed, fails: at the start of
  \<^verbatim>\<open>cat\<close> nothing is typed yet, the word from the cursor on is \<^verbatim>\<open>cat\<close>, and the
  letters returned are \<^verbatim>\<open>a\<close> and \<^verbatim>\<open>t\<close>.
\<close>

theorem remaining_letters_skip_cursor:
  "0 < length (str ''cat'')
   \<and> wordFromCursor (str ''cat'') 0 = str ''cat''
   \<and> remainingLetters (getCurrentWordInfo (str ''cat'') 0) = [str ''a'', str ''t'']
   \<and> remainingLetters (getCurrentWordInfo (str ''cat'') 0)
       \<noteq> splitChars (wordFromCursor (str ''cat'') 0)"
proof -
  have w: "wordFromCursor (str ''cat'') 0 = str ''cat''"
    by (simp add: wordFromCursor_def notSpace_def str_def)
  have e: "scanWordEnd (str ''cat'') 0 = 3"
    by (simp add: scanWordEnd_eq notSpace_def str_def)
  have r: "remainingLetters (getCurrentWordInfo (str ''cat'') 0) = [str ''a'', str ''t'']"
    by (simp add: getCurrentWordInfo_def Let_def e substring_def splitChars_def)
       (simp add: str_def)
  from w r show ?thesis
    by (simp add: splitChars_def str_def)
qed

subsection \<open>Keyboard Locator\<close>

lemma find_append_option:
  "find P (xs @ ys) = (case find P xs of None \<Rightarrow> find P ys | Some x \<Rightarrow> Some x)"
  by (induction xs) simp_all

lemma find_row:
  "find (\<lambda>(k', p). k' = k)
        (map (\<lambda>(i, k'). (k', \<lparr>rowIndex = r, keyIndex = i\<rparr>)) (enumerate n row))
     = map_option (\<lambda>i. (k, \<lparr>rowIndex = r, keyIndex = n + i\<rparr>)) (indexOf row k)"
proof (induction row arbitrary: n)
  case Nil
  then show ?case by simp
next
  case (Cons y ys)
  show ?case
  proof (cases "y = k")
    case True
    then show ?thesis by simp
  next
    case False
    with Cons [of "Suc n"] show ?thesis
      by (simp add: option.map_comp comp_def)
  qed
qed

lemma scanRows_find:
  "scanRows rows r k
     = map_option snd
         (find (\<lambda>(k', p). k' = k)
            (concat (map (\<lambda>(r, row). map (\<lambda>(i, k'). (k', \<lparr>rowIndex = r, keyIndex = i\<rparr>))
                                           (enumerate 0 row))
                         (enumerate r rows))))"
proof (induction rows arbitrary: r)
  case Nil
  then show ?case by simp
next
  case (Cons row rows)
  show ?case
  proof (cases "indexOf row k")
    case None
    with Cons [of "Suc r"] show ?thesis
      by (simp add: find_append_option find_row)
  next
    case (Some i)
    then show ?thesis
      by (simp add: find_append_option find_row)
  qed
qed

lemma scanRows_layoutPosition: "scanRows keyboardLayout 0 k = layoutPosition k"
  by (simp add: layoutPosition_def rowMajor_def scanRows_find)

lemma scanShift_find:
  assumes "\<forall>(baseKey, shiftSymbol) \<in> set es. scanRows keyboardLayout 0 baseKey \<noteq> None"
  shows "scanShift es c
           = (case find (\<lambda>(baseKey, shiftSymbol). shiftSymbol = c) es of
                Some (baseKey, shiftSymbol) \<Rightarrow> scanRows keyboardLayout 0 baseKey
              | None \<Rightarrow> None)"
  using assms
proof (induction es)
  case Nil
  then show ?case by simp
next
  case (Cons e es)
  obtain b sh where e: "e = (b, sh)" by (cases e)
  with Cons show ?case
    by (auto split: option.splits)
qed

lemma layout_2: "scanRows keyboardLayout 0 (str ''2'') = Some \<lparr>rowIndex = 0, keyIndex = 1\<rparr>"
  by (simp add: keyboardLayout_def str_def)

lemma layout_at: "scanRows keyboardLayout 0 (str ''@'') = None"
  by (simp add: keyboardLayout_def str_def)

lemma shift_bases_in_layout:
  "\<forall>(baseKey, shiftSymbol) \<in> set shiftSymbols. scanRows keyboardLayout 0 baseKey \<noteq> None"
  by (simp add: shiftSymbols_def keyboardLayout_def str_def)

lemma shift_at:
  "find (\<lambda>(baseKey, shiftSymbol). shiftSymbol = str ''@'') shiftSymbols
     = Some (str ''2'', str ''@'')"
  by (simp add: shiftSymbols_def str_def)

text \<open>
  Claim C6. The locator returns what the specification describes: the first position of
  the lowercased character in the layout, row by row; failing that, the layout position
  of the base key of the first shift-table entry whose shifted value is the character;
  failing that, nothing. For \<^verbatim>\<open>@\<close>, which lowercasing leaves alone, that is the
  position of the key \<^verbatim>\<open>2\<close>: row 0, column 1.
\<close>

theorem keyboard_locator:
  "findKeyPosition lower c = locateSpec lower c
   \<and> (lower (str ''@'') = str ''@'' \<longrightarrow>
        findKeyPosition lower (str ''@'') = Some \<lparr>rowIndex = 0, keyIndex = 1\<rparr>)
   \<and> layoutPosition (str ''2'') = Some \<lparr>rowIndex = 0, keyIndex = 1\<rparr>"
proof (intro conjI impI)
  show "findKeyPosition lower c = locateSpec lower c"
    by (simp add: findKeyPosition_def locateSpec_def Let_def
          scanShift_find [OF shift_bases_in_layout] scanRows_layoutPosition
          split: option.splits)
next
  assume "lower (str ''@'') = str ''@''"
  then show "findKeyPosition lower (str ''@'') = Some \<lparr>rowIndex = 0, keyIndex = 1\<rparr>"
    by (simp add: findKeyPosition_def Let_def layout_at
          scanShift_find [OF shift_bases_in_layout] shift_at layout_2)
next
  show "layoutPosition (str ''2'') = Some \<lparr>rowIndex = 0, keyIndex = 1\<rparr>"
    by (simp add: scanRows_layoutPosition [symmetric] layout_2)
qed

theorem keyboard_locator_witness:
  "asciiLower (str ''@'') = str ''@''
   \<and> findKeyPosition asciiLower (str ''@'') = Some \<lparr>rowIndex = 0, keyIndex = 1\<rparr>
   \<and> locateSpec asciiLower (str ''@'') = Some \<lparr>rowIndex = 0, keyIndex = 1\<rparr>"
proof -
  have a: "asciiLower (str ''@'') = str ''@''"
    by (simp add: asciiLower_def str_def)
  note k = keyboard_locator [of asciiLower "str ''@''"]
  from k have e: "findKeyPosition asciiLower (str ''@'') = locateSpec asciiLower (str ''@'')"
    by (rule conjunct1)
  from k a
  have f: "findKeyPosition asciiLower (str ''@'') = Some \<lparr>rowIndex = 0, keyIndex = 1\<rparr>"
    by blast
  from e f have "locateSpec asciiLower (str ''@'') = Some \<lparr>rowIndex = 0, keyIndex = 1\<rparr>"
    by (rule subst)
  with a f show ?thesis
    by blast
qed

end
